theory Spec2Isabelle
  imports Complex_Main
begin

section \<open>Numbers and errors\<close>

text \<open>
  The Go sources compute with \<open>float64\<close>; the tables store \<open>DECIMAL\<close> columns. Both are
  modelled over the rationals. A finite \<open>float64\<close> is the rational it denotes, every
  arithmetic operation rounds its exact result to the nearest \<open>float64\<close> (ties to even,
  overflow to an infinity), and a column rounds what is assigned to it to its scale (ties
  away from zero) and rejects what its precision cannot hold. Signed zeros are not
  distinguished.

  Go's \<open>error\<close> values are messages; every distinct message of the modelled functions is a
  constructor of \<open>error\<close>, and \<open>fmt.Errorf("...: %w", err)\<close> is a constructor that wraps
  the inner error.
\<close>

datatype float64 = Fin rat | PInf | NInf | NaN

datatype error =
    ErrInvalidUserID
  | ErrUnsupportedCurrency string
  | ErrUnsupportedSource string
  | ErrUnsupportedTarget string
  | ErrInvalidAmount
  | ErrInsufficientFunds
  | ErrNoRows
  | ErrNumericValue
  | ErrNumericOverflow
  | ErrForeignKey
  | ErrCreateWallet error
  | ErrGetBalance error
  | ErrUpdateBalance error
  | ErrBeginTx
  | ErrCommit
  | ErrDebit string error
  | ErrCredit string error
  | ErrDebitSender error
  | ErrCreditReceiver error
  | ErrGrpc
  | ErrBaseRatesUnavailable
  | ErrUnsupportedPair
  | ErrRate error
  | ErrUnrealisticRate
  | ErrExchange error
  | ErrRateTooHigh float64
  | ErrURLNotConfigured
  | ErrFetch error
  | ErrHTTP
  | ErrUpsert string
  | ErrRateNotFound string

subsection \<open>Binary floating point\<close>

text \<open>The number of digits of \<open>n\<close> in base \<open>b\<close>, and the integer logarithm of a positive rational.\<close>

function ndigits :: "nat \<Rightarrow> nat \<Rightarrow> nat" where
  "ndigits b n = (if n = 0 \<or> b < 2 then 0 else Suc (ndigits b (n div b)))"
  by pat_completeness auto
termination
  by (relation "measure snd") auto

declare ndigits.simps [simp del]

definition ilog :: "nat \<Rightarrow> rat \<Rightarrow> int" where
  "ilog b x =
     (if 1 \<le> x then int (ndigits b (nat \<lfloor>x\<rfloor>)) - 1
      else - int (ndigits b (nat (\<lceil>1 / x\<rceil> - 1))))"

definition round_even :: "rat \<Rightarrow> int" where
  "round_even x =
     (let n = \<lfloor>x\<rfloor>; r = x - of_int n
      in if r < 1 / 2 then n else if 1 / 2 < r then n + 1 else if even n then n else n + 1)"

text \<open>
  Rounding to \<open>float64\<close>: 53 significant bits, the exponent not below \<open>- 1022\<close>
  (subnormal numbers), a rounded magnitude of \<open>2^1024\<close> is an infinity.
\<close>

definition round64 :: "rat \<Rightarrow> float64" where
  "round64 x =
     (if x = 0 then Fin 0
      else
        (let e = max (ilog 2 \<bar>x\<bar>) (- 1022);
             q = 2 powi (e - 52);
             m = of_int (round_even (\<bar>x\<bar> / q)) * q
         in if 2 ^ 1024 \<le> m then (if 0 < x then PInf else NInf)
            else Fin (sgn x * m)))"

text \<open>
  Reading a decimal numeral as a \<open>float64\<close> (\<open>strconv.ParseFloat\<close>, as the JSON decoder
  and \<open>Scan\<close> use it). The numerals read here are column values and literals, all far
  inside the range.
\<close>

definition float64_of :: "rat \<Rightarrow> rat" where
  "float64_of d = (case round64 d of Fin v \<Rightarrow> v | _ \<Rightarrow> 0)"

text \<open>Division and multiplication of \<open>float64\<close> values, and the comparison \<open><\<close>.\<close>

definition fdiv :: "rat \<Rightarrow> rat \<Rightarrow> float64" where
  "fdiv a b =
     (if b = 0 then (if a = 0 then NaN else if 0 < a then PInf else NInf)
      else round64 (a / b))"

fun fmul :: "float64 \<Rightarrow> float64 \<Rightarrow> float64" where
  "fmul NaN _ = NaN"
| "fmul _ NaN = NaN"
| "fmul (Fin a) (Fin b) = round64 (a * b)"
| "fmul (Fin a) PInf = (if a = 0 then NaN else if 0 < a then PInf else NInf)"
| "fmul (Fin a) NInf = (if a = 0 then NaN else if 0 < a then NInf else PInf)"
| "fmul PInf (Fin b) = (if b = 0 then NaN else if 0 < b then PInf else NInf)"
| "fmul NInf (Fin b) = (if b = 0 then NaN else if 0 < b then NInf else PInf)"
| "fmul PInf PInf = PInf"
| "fmul PInf NInf = NInf"
| "fmul NInf PInf = NInf"
| "fmul NInf NInf = PInf"

declare fmul.simps [simp del]

fun flt :: "float64 \<Rightarrow> float64 \<Rightarrow> bool" where
  "flt (Fin a) (Fin b) = (a < b)"
| "flt (Fin a) PInf = True"
| "flt NInf (Fin b) = True"
| "flt NInf PInf = True"
| "flt _ _ = False"

subsection \<open>Parameters and columns\<close>

text \<open>
  The driver (\<open>lib/pq\<close>) sends a \<open>float64\<close> parameter as the text of
  \<open>strconv.FormatFloat(v, 'f', -1, 64)\<close>: the decimal numeral with the fewest significant
  digits that reads back as \<open>v\<close>, the nearest to \<open>v\<close> among those. \<open>candidate x n\<close> is
  that numeral among the two \<open>n\<close>-digit neighbours of \<open>x\<close>, if one of them reads back as
  \<open>x\<close>; 17 digits always suffice.
\<close>

definition candidate :: "rat \<Rightarrow> nat \<Rightarrow> rat option" where
  "candidate x n =
     (let s = 10 powi (int n - 1 - ilog 10 x);
          lo = of_int \<lfloor>x * s\<rfloor> / s;
          hi = of_int \<lceil>x * s\<rceil> / s;
          lok = (round64 lo = Fin x);
          hok = (round64 hi = Fin x)
      in if lok \<and> hok then Some (if x - lo \<le> hi - x then lo else hi)
         else if lok then Some lo
         else if hok then Some hi
         else None)"

fun shortest :: "rat \<Rightarrow> nat list \<Rightarrow> rat" where
  "shortest x [] = x"
| "shortest x (n # ns) = (case candidate x n of Some d \<Rightarrow> d | None \<Rightarrow> shortest x ns)"

definition FormatFloat :: "rat \<Rightarrow> rat" where
  "FormatFloat x =
     (if x = 0 then 0
      else sgn x * shortest \<bar>x\<bar> [1, 2, 3, 4, 5, 6, 7, 8, 9, 10, 11, 12, 13, 14, 15, 16, 17])"

text \<open>
  Assigning to a column \<open>DECIMAL(p, s)\<close>: the value is rounded to \<open>s\<close> decimals, ties away
  from zero, and the statement fails (\<open>None\<close>) when the rounded value needs more than
  \<open>p - s\<close> digits before the point.
\<close>

definition round_away :: "nat \<Rightarrow> rat \<Rightarrow> rat" where
  "round_away s x = sgn x * of_int \<lfloor>\<bar>x\<bar> * 10 ^ s + 1 / 2\<rfloor> / 10 ^ s"

definition numeric :: "nat \<Rightarrow> nat \<Rightarrow> rat \<Rightarrow> rat option" where
  "numeric p s x = (let y = round_away s x in if \<bar>y\<bar> < 10 ^ (p - s) then Some y else None)"

section \<open>Wallet service: the ledger store\<close>

text \<open>
  \<open>models.Balance\<close>: one \<open>float64\<close> amount per supported currency. A row of table
  \<open>wallets\<close>: the columns \<open>usd\<close>, \<open>rub\<close>, \<open>eur\<close>, each \<open>DECIMAL(15, 2)\<close>. \<open>Scan\<close> reads a
  row into a balance.
\<close>

record Balance =
  USD :: rat
  RUB :: rat
  EUR :: rat

record wallet_row =
  usd :: rat
  rub :: rat
  eur :: rat

definition scan_row :: "wallet_row \<Rightarrow> Balance" where
  "scan_row r = \<lparr>USD = float64_of (usd r), RUB = float64_of (rub r), EUR = float64_of (eur r)\<rparr>"

text \<open>
  The database of the wallet service: the ids in table \<open>users\<close> and the rows of table
  \<open>wallets\<close> (\<open>user_id\<close> is the primary key and references \<open>users(id)\<close>; the table has
  no \<open>CHECK\<close> constraint).
\<close>

record wallet_db =
  users :: "int set"
  wallets :: "int \<rightharpoonup> wallet_row"

text \<open>Whether \<open>BeginTx\<close> and \<open>Commit\<close> of one transaction fail.\<close>

record tx_faults =
  begin_fails :: bool
  commit_fails :: bool

definition no_faults :: tx_faults where
  "no_faults = \<lparr>begin_fails = False, commit_fails = False\<rparr>"

text \<open>
  The expression \<open>c + $1\<close> assigned to column \<open>c\<close>. An infinite parameter cannot be
  stored in the column; no caller passes NaN, which is given the same error.
\<close>

definition add_to :: "float64 \<Rightarrow> rat \<Rightarrow> error + rat" where
  "add_to amount c =
     (case amount of
        Fin a \<Rightarrow>
          (case numeric 15 2 (c + FormatFloat a) of
             Some v \<Rightarrow> Inr v
           | None \<Rightarrow> Inl ErrNumericOverflow)
      | _ \<Rightarrow> Inl ErrNumericValue)"

text \<open>
  The statement \<open>UPDATE wallets SET c = c + $1 WHERE user_id = $2 RETURNING usd, rub, eur\<close>:
  no row for the user makes \<open>Scan\<close> return \<open>sql.ErrNoRows\<close>.
\<close>

definition update_returning ::
  "(int \<rightharpoonup> wallet_row) \<Rightarrow> int \<Rightarrow> (wallet_row \<Rightarrow> error + wallet_row)
     \<Rightarrow> error + (Balance \<times> (int \<rightharpoonup> wallet_row))" where
  "update_returning rows userID f =
     (case rows userID of
        None \<Rightarrow> Inl ErrNoRows
      | Some r \<Rightarrow>
          (case f r of
             Inl e \<Rightarrow> Inl e
           | Inr r' \<Rightarrow> Inr (scan_row r', rows(userID \<mapsto> r'))))"

definition updateBalanceTx ::
  "(int \<rightharpoonup> wallet_row) \<Rightarrow> int \<Rightarrow> string \<Rightarrow> float64
     \<Rightarrow> error + (Balance \<times> (int \<rightharpoonup> wallet_row))" where
  "updateBalanceTx tx userID currency amount =
     (if currency = ''USD'' then
        update_returning tx userID
          (\<lambda>r. case add_to amount (usd r) of Inl e \<Rightarrow> Inl e | Inr v \<Rightarrow> Inr (r\<lparr>usd := v\<rparr>))
      else if currency = ''RUB'' then
        update_returning tx userID
          (\<lambda>r. case add_to amount (rub r) of Inl e \<Rightarrow> Inl e | Inr v \<Rightarrow> Inr (r\<lparr>rub := v\<rparr>))
      else if currency = ''EUR'' then
        update_returning tx userID
          (\<lambda>r. case add_to amount (eur r) of Inl e \<Rightarrow> Inl e | Inr v \<Rightarrow> Inr (r\<lparr>eur := v\<rparr>))
      else Inl (ErrUnsupportedCurrency currency))"

text \<open>\<open>walletRepository.UpdateBalance\<close>: the same statement outside a transaction.\<close>

definition UpdateBalance ::
  "wallet_db \<Rightarrow> int \<Rightarrow> string \<Rightarrow> float64 \<Rightarrow> (error + Balance) \<times> wallet_db" where
  "UpdateBalance db userID currency amount =
     (if currency = ''USD'' \<or> currency = ''RUB'' \<or> currency = ''EUR'' then
        (case updateBalanceTx (wallets db) userID currency amount of
           Inl e \<Rightarrow> (Inl (ErrUpdateBalance e), db)
         | Inr (balance, rows) \<Rightarrow> (Inr balance, db\<lparr>wallets := rows\<rparr>))
      else (Inl (ErrUnsupportedCurrency currency), db))"

text \<open>
  \<open>walletRepository.CreateWallet\<close>: \<open>INSERT INTO wallets (user_id)\<close>, the amounts take the
  column default \<open>0.00\<close>; the insert fails on an existing row or on a user id that table
  \<open>users\<close> does not have.
\<close>

definition CreateWallet :: "wallet_db \<Rightarrow> int \<Rightarrow> error option \<times> wallet_db" where
  "CreateWallet db userID =
     (if userID \<in> users db \<and> wallets db userID = None
      then (None, db\<lparr>wallets := (wallets db)(userID \<mapsto> \<lparr>usd = 0, rub = 0, eur = 0\<rparr>)\<rparr>)
      else (Some (ErrCreateWallet ErrForeignKey), db))"

text \<open>\<open>walletRepository.GetBalance\<close>: a missing row is created on first access.\<close>

definition GetBalance :: "wallet_db \<Rightarrow> int \<Rightarrow> (error + Balance) \<times> wallet_db" where
  "GetBalance db userID =
     (case wallets db userID of
        Some r \<Rightarrow> (Inr (scan_row r), db)
      | None \<Rightarrow>
          (case CreateWallet db userID of
             (Some e, db') \<Rightarrow> (Inl e, db')
           | (None, db') \<Rightarrow> (Inr \<lparr>USD = 0, RUB = 0, EUR = 0\<rparr>, db')))"

text \<open>
  \<open>walletRepository.Transfer\<close>: both updates run on the transaction's copy of the rows;
  every error return leaves the database as it was (the deferred \<open>Rollback\<close>).
\<close>

definition Transfer ::
  "tx_faults \<Rightarrow> wallet_db \<Rightarrow> int \<Rightarrow> int \<Rightarrow> string \<Rightarrow> rat
     \<Rightarrow> (error + (Balance \<times> Balance)) \<times> wallet_db" where
  "Transfer fl db fromUserID toUserID currency amount =
     (if begin_fails fl then (Inl ErrBeginTx, db)
      else
        (case updateBalanceTx (wallets db) fromUserID currency (Fin (- amount)) of
           Inl e \<Rightarrow> (Inl (ErrDebitSender e), db)
         | Inr (fromBalance, tx1) \<Rightarrow>
             (case updateBalanceTx tx1 toUserID currency (Fin amount) of
                Inl e \<Rightarrow> (Inl (ErrCreditReceiver e), db)
              | Inr (toBalance, tx2) \<Rightarrow>
                  (if commit_fails fl then (Inl ErrCommit, db)
                   else (Inr (fromBalance, toBalance), db\<lparr>wallets := tx2\<rparr>)))))"

text \<open>\<open>walletRepository.Exchange\<close>: debit, then credit \<open>amount * rate\<close>, then commit.\<close>

definition walletRepository_Exchange ::
  "tx_faults \<Rightarrow> wallet_db \<Rightarrow> int \<Rightarrow> string \<Rightarrow> string \<Rightarrow> rat \<Rightarrow> float64
     \<Rightarrow> (error + Balance) \<times> wallet_db" where
  "walletRepository_Exchange fl db userID fromCurrency toCurrency amount rate =
     (if begin_fails fl then (Inl ErrBeginTx, db)
      else
        (case updateBalanceTx (wallets db) userID fromCurrency (Fin (- amount)) of
           Inl e \<Rightarrow> (Inl (ErrDebit fromCurrency e), db)
         | Inr (_, tx1) \<Rightarrow>
             (let exchangedAmount = fmul (Fin amount) rate in
              case updateBalanceTx tx1 userID toCurrency exchangedAmount of
                Inl e \<Rightarrow> (Inl (ErrCredit toCurrency e), db)
              | Inr (balance, tx2) \<Rightarrow>
                  (if commit_fails fl then (Inl ErrCommit, db)
                   else (Inr balance, db\<lparr>wallets := tx2\<rparr>)))))"

section \<open>Wallet service: rate resolution\<close>

text \<open>
  What \<open>ExchangeService.GetRates\<close> reads: the quote map cached in Redis under
  \<open>exchange:rates\<close> when the key is there and parses, and the answer of the gRPC call
  \<open>GetExchangeRates\<close> (\<open>None\<close> when the call fails). The quotes are finite \<open>float64\<close>
  values. Writing the fetched map back to Redis does not change the value returned and is
  left out.
\<close>

record rate_source =
  cached :: "(string \<rightharpoonup> rat) option"
  remote :: "(string \<rightharpoonup> rat) option"

text \<open>Indexing a Go map: a missing key reads as the zero value.\<close>

definition index :: "(string \<rightharpoonup> rat) \<Rightarrow> string \<Rightarrow> rat" where
  "index m k = (case m k of None \<Rightarrow> 0 | Some v \<Rightarrow> v)"

definition filterRates :: "(string \<rightharpoonup> rat) \<Rightarrow> (string \<rightharpoonup> rat)" where
  "filterRates rates =
     foldl (\<lambda>res currency. case rates currency of Some rate \<Rightarrow> res(currency \<mapsto> rate) | None \<Rightarrow> res)
       Map.empty [''USD'', ''EUR'', ''RUB'']"

definition GetRates :: "rate_source \<Rightarrow> error + (string \<rightharpoonup> rat)" where
  "GetRates src =
     (case cached src of
        Some rates \<Rightarrow> Inr (filterRates rates)
      | None \<Rightarrow>
          (case remote src of
             None \<Rightarrow> Inl ErrGrpc
           | Some result \<Rightarrow> Inr (filterRates result)))"

text \<open>\<open>ExchangeService.GetRate\<close>, every division and multiplication a \<open>float64\<close> operation.\<close>

definition ExchangeService_GetRate :: "rate_source \<Rightarrow> string \<Rightarrow> string \<Rightarrow> error + float64" where
  "ExchangeService_GetRate src from to =
     (if from = to then Inr (Fin 1)
      else
        (case GetRates src of
           Inl e \<Rightarrow> Inl e
         | Inr rates \<Rightarrow>
             (if index rates ''USD'' = 0 \<or> index rates ''EUR'' = 0 then Inl ErrBaseRatesUnavailable
              else if from = ''RUB'' \<and> to = ''USD'' then Inr (fdiv 1 (index rates ''USD''))
              else if from = ''USD'' \<and> to = ''RUB'' then Inr (Fin (index rates ''USD''))
              else if from = ''RUB'' \<and> to = ''EUR'' then Inr (fdiv 1 (index rates ''EUR''))
              else if from = ''EUR'' \<and> to = ''RUB'' then Inr (Fin (index rates ''EUR''))
              else if from = ''USD'' \<and> to = ''EUR''
                then Inr (fmul (fdiv 1 (index rates ''EUR'')) (Fin (index rates ''USD'')))
              else if from = ''EUR'' \<and> to = ''USD''
                then Inr (fmul (fdiv 1 (index rates ''USD'')) (Fin (index rates ''EUR'')))
              else Inl ErrUnsupportedPair)))"

section \<open>Wallet service: operations\<close>

definition isValidCurrency :: "string \<Rightarrow> bool" where
  "isValidCurrency currency = (currency = ''USD'' \<or> currency = ''RUB'' \<or> currency = ''EUR'')"

definition getBalanceByCurrency :: "Balance \<Rightarrow> string \<Rightarrow> error + rat" where
  "getBalanceByCurrency balance currency =
     (if currency = ''USD'' then Inr (USD balance)
      else if currency = ''RUB'' then Inr (RUB balance)
      else if currency = ''EUR'' then Inr (EUR balance)
      else Inl (ErrUnsupportedCurrency currency))"

text \<open>The amount of a request is a finite \<open>float64\<close> (a JSON number).\<close>

definition Deposit :: "wallet_db \<Rightarrow> int \<Rightarrow> string \<Rightarrow> rat \<Rightarrow> (error + Balance) \<times> wallet_db" where
  "Deposit db userID currency amount =
     (if userID \<le> 0 then (Inl ErrInvalidUserID, db)
      else if \<not> isValidCurrency currency then (Inl (ErrUnsupportedCurrency currency), db)
      else if amount \<le> 0 then (Inl ErrInvalidAmount, db)
      else UpdateBalance db userID currency (Fin amount))"

definition Withdraw :: "wallet_db \<Rightarrow> int \<Rightarrow> string \<Rightarrow> rat \<Rightarrow> (error + Balance) \<times> wallet_db" where
  "Withdraw db userID currency amount =
     (if userID \<le> 0 then (Inl ErrInvalidUserID, db)
      else if \<not> isValidCurrency currency then (Inl (ErrUnsupportedCurrency currency), db)
      else if amount \<le> 0 then (Inl ErrInvalidAmount, db)
      else
        (case GetBalance db userID of
           (Inl e, db1) \<Rightarrow> (Inl (ErrGetBalance e), db1)
         | (Inr balance, db1) \<Rightarrow>
             (case getBalanceByCurrency balance currency of
                Inl e \<Rightarrow> (Inl e, db1)
              | Inr currentBalance \<Rightarrow>
                  (if currentBalance < amount then (Inl ErrInsufficientFunds, db1)
                   else UpdateBalance db1 userID currency (Fin (- amount))))))"

record ExchangeResponse =
  ExchangedAmount :: float64
  NewBalance :: Balance
  Rate :: float64

text \<open>The literals \<open>100\<close> and \<open>2.0\<close> are \<open>float64\<close> values; \<open>0.05\<close> is rounded to one.\<close>

definition maxRates :: "string \<rightharpoonup> float64" where
  "maxRates = [''RUB/USD'' \<mapsto> round64 (1 / 20), ''USD/RUB'' \<mapsto> Fin 100,
               ''EUR/USD'' \<mapsto> Fin 2, ''USD/EUR'' \<mapsto> Fin 2]"

text \<open>
  \<open>WalletService.Exchange\<close>, with \<open>ExchangeService.GetRate\<close> as its rate provider. The
  first plausibility test precedes \<open>repo.Exchange\<close>; the \<open>maxRates\<close> test follows it.
  The constant \<open>Message\<close> of the response is left out.
\<close>

definition WalletService_Exchange ::
  "rate_source \<Rightarrow> tx_faults \<Rightarrow> wallet_db \<Rightarrow> int \<Rightarrow> string \<Rightarrow> string \<Rightarrow> rat
     \<Rightarrow> (error + ExchangeResponse) \<times> wallet_db" where
  "WalletService_Exchange src fl db userID fromCurrency toCurrency amount =
     (if userID \<le> 0 then (Inl ErrInvalidUserID, db)
      else if \<not> isValidCurrency fromCurrency then (Inl (ErrUnsupportedSource fromCurrency), db)
      else if \<not> isValidCurrency toCurrency then (Inl (ErrUnsupportedTarget toCurrency), db)
      else if amount \<le> 0 then (Inl ErrInvalidAmount, db)
      else
        (case ExchangeService_GetRate src fromCurrency toCurrency of
           Inl e \<Rightarrow> (Inl (ErrRate e), db)
         | Inr rate \<Rightarrow>
             (if (fromCurrency = ''RUB'' \<and> toCurrency = ''USD'' \<and> flt (round64 (1 / 20)) rate) \<or>
                 (fromCurrency = ''USD'' \<and> toCurrency = ''RUB'' \<and> flt rate (Fin 10))
              then (Inl ErrUnrealisticRate, db)
              else
                (case walletRepository_Exchange fl db userID fromCurrency toCurrency amount rate of
                   (Inl e, db') \<Rightarrow> (Inl (ErrExchange e), db')
                 | (Inr newBalance, db') \<Rightarrow>
                     (let key = fromCurrency @ ''/'' @ toCurrency;
                          ok = (Inr \<lparr>ExchangedAmount = fmul (Fin amount) rate,
                                     NewBalance = newBalance, Rate = rate\<rparr>, db')
                      in case maxRates key of
                           Some maxRate \<Rightarrow> if flt maxRate rate then (Inl (ErrRateTooHigh rate), db') else ok
                         | None \<Rightarrow> ok)))))"

section \<open>Exchanger service: the stored quotes\<close>

text \<open>
  A row of table \<open>exchange_rates\<close> (column \<open>currency\<close> is unique and is the key of the
  map, column \<open>rate\<close> is \<open>DECIMAL(10, 6)\<close>), and the exchanger's \<open>PostgresStorage\<close>: the
  configured API address and the table.
\<close>

record rate_row =
  row_rate :: rat
  row_updated_at :: nat

record PostgresStorage =
  apiURL :: string
  exchange_rates :: "string \<rightharpoonup> rate_row"

text \<open>Faults of one refresh: of the transaction, and of the upsert of a currency.\<close>

record update_faults = tx_faults +
  exec_fails :: "string \<Rightarrow> bool"

text \<open>
  The loop of \<open>UpdateRatesFromCB\<close> over the fetched map, in the order the iteration
  visits it: \<open>INSERT ... ON CONFLICT (currency) DO UPDATE SET rate = $2, updated_at = NOW()\<close>
  for every entry; the statement fails when the column cannot hold the rate. No statement
  of the function deletes a row. The fetched rates are finite \<open>float64\<close> values.
\<close>

fun upsert_rates ::
  "(string \<Rightarrow> bool) \<Rightarrow> nat \<Rightarrow> (string \<times> rat) list \<Rightarrow> (string \<rightharpoonup> rate_row)
     \<Rightarrow> error + (string \<rightharpoonup> rate_row)" where
  "upsert_rates bad now [] tx = Inr tx"
| "upsert_rates bad now ((currency, rate) # rest) tx =
     (if bad currency then Inl (ErrUpsert currency)
      else
        (case numeric 10 6 (FormatFloat rate) of
           None \<Rightarrow> Inl (ErrUpsert currency)
         | Some v \<Rightarrow>
             upsert_rates bad now rest (tx(currency \<mapsto> \<lparr>row_rate = v, row_updated_at = now\<rparr>))))"

text \<open>
  \<open>PostgresStorage.UpdateRatesFromCB\<close>. \<open>fetched\<close> is what \<open>api.FetchCBExchangeRates\<close>
  returned (an error, or the entries of its map), \<open>now\<close> the time of the transaction.
  The result is the returned error (\<open>None\<close> for \<open>nil\<close>) and the storage afterwards.
\<close>

definition UpdateRatesFromCB ::
  "update_faults \<Rightarrow> nat \<Rightarrow> error + (string \<times> rat) list \<Rightarrow> PostgresStorage
     \<Rightarrow> error option \<times> PostgresStorage" where
  "UpdateRatesFromCB fl now fetched s =
     (if apiURL s = [] then (Some ErrURLNotConfigured, s)
      else
        (case fetched of
           Inl e \<Rightarrow> (Some (ErrFetch e), s)
         | Inr rates \<Rightarrow>
             (if begin_fails fl then (Some ErrBeginTx, s)
              else
                (case upsert_rates (exec_fails fl) now rates (exchange_rates s) of
                   Inl e \<Rightarrow> (Some e, s)
                 | Inr tx \<Rightarrow>
                     (if commit_fails fl then (Some ErrCommit, s)
                      else (None, s\<lparr>exchange_rates := tx\<rparr>))))))"

text \<open>
  \<open>PostgresStorage.GetRate\<close> of the exchanger: quotes are read relative to \<open>USD\<close>, a pair
  without \<open>USD\<close> is resolved by two recursive calls through \<open>USD\<close>. In Go, dividing a
  \<open>float64\<close> by zero does not panic: it yields an infinity, or NaN for \<open>0 / 0\<close>.
\<close>

function PostgresStorage_GetRate ::
  "(string \<rightharpoonup> rate_row) \<Rightarrow> string \<Rightarrow> string \<Rightarrow> error + float64" where
  "PostgresStorage_GetRate tbl from to =
     (if from = to then Inr (Fin 1)
      else if from = ''USD'' \<or> to = ''USD'' then
        (let targetCurrency = (if from = ''USD'' then to else from) in
         case tbl targetCurrency of
           None \<Rightarrow> Inl (ErrRateNotFound targetCurrency)
         | Some row \<Rightarrow>
             (let rate = float64_of (row_rate row) in
              if from = ''USD'' then Inr (Fin rate)
              else Inr (fdiv 1 rate)))
      else
        (case PostgresStorage_GetRate tbl from ''USD'' of
           Inl e \<Rightarrow> Inl e
         | Inr rateFromUSD \<Rightarrow>
             (case PostgresStorage_GetRate tbl ''USD'' to of
                Inl e \<Rightarrow> Inl e
              | Inr rateToUSD \<Rightarrow> Inr (fmul rateFromUSD rateToUSD))))"
  by pat_completeness auto
termination
  by (relation "measure (\<lambda>(tbl, from, to). if from = ''USD'' \<or> to = ''USD'' then 0 else 1)") auto

declare PostgresStorage_GetRate.simps [simp del]

section \<open>Scenario data\<close>

text \<open>The quotes of the specification's scenarios, in roubles, served by the gRPC call.\<close>

definition scenario_quotes :: "string \<rightharpoonup> rat" where
  "scenario_quotes = [''RUB'' \<mapsto> 1, ''USD'' \<mapsto> 80, ''EUR'' \<mapsto> 90]"

definition scenario_source :: rate_source where
  "scenario_source = \<lparr>cached = None, remote = Some scenario_quotes\<rparr>"

text \<open>A database with user 1 and the wallet row given.\<close>

definition wallet_of :: "wallet_row \<Rightarrow> wallet_db" where
  "wallet_of r = \<lparr>users = {1}, wallets = [1 \<mapsto> r]\<rparr>"

text \<open>
  An exchanger storage that still holds a row for a currency (\<open>XDR\<close>) which the next
  fetch no longer lists, a refresh without faults, and the entries of that fetch; the
  last of its rates has eight decimals.
\<close>

definition stale_storage :: PostgresStorage where
  "stale_storage = \<lparr>apiURL = ''http://cbr'',
     exchange_rates = [''XDR'' \<mapsto> \<lparr>row_rate = 100, row_updated_at = 0\<rparr>,
                       ''USD'' \<mapsto> \<lparr>row_rate = 75, row_updated_at = 0\<rparr>]\<rparr>"

definition healthy :: update_faults where
  "healthy = \<lparr>begin_fails = False, commit_fails = False, exec_fails = (\<lambda>c. False)\<rparr>"

definition fresh_quotes :: "(string \<times> rat) list" where
  "fresh_quotes = [(''USD'', 80), (''EUR'', 90), (''RUB'', 1), (''VND'', 1 / 256)]"

text \<open>
  A quote set that lacks \<open>USD\<close>, one in which a dollar costs 101 roubles, and one whose
  dollar quote is the smallest positive \<open>float64\<close>.
\<close>

definition quotes_without_usd :: rate_source where
  "quotes_without_usd = \<lparr>cached = None, remote = Some [''RUB'' \<mapsto> 1, ''EUR'' \<mapsto> 90]\<rparr>"

definition dear_dollar_source :: rate_source where
  "dear_dollar_source =
     \<lparr>cached = None, remote = Some [''RUB'' \<mapsto> 1, ''USD'' \<mapsto> 101, ''EUR'' \<mapsto> 110]\<rparr>"

definition tiny_dollar_source :: rate_source where
  "tiny_dollar_source =
     \<lparr>cached = Some [''RUB'' \<mapsto> 1, ''USD'' \<mapsto> 2 powi (- 1074), ''EUR'' \<mapsto> 90], remote = None\<rparr>"

text \<open>The invariant of the specification: no amount of a wallet row is negative.\<close>

definition non_negative :: "wallet_row \<Rightarrow> bool" where
  "non_negative r = (0 \<le> usd r \<and> 0 \<le> rub r \<and> 0 \<le> eur r)"


text \<open>\<open>relerr e x' x\<close>: \<open>x'\<close> approximates \<open>x\<close> with relative error at most \<open>e\<close>.\<close>

definition relerr :: "rat \<Rightarrow> rat \<Rightarrow> rat \<Rightarrow> bool" where
  "relerr e x' x = (\<bar>x' - x\<bar> \<le> e * \<bar>x\<bar>)"

lemmas wallet_defs =
  WalletService_Exchange_def ExchangeService_GetRate_def GetRates_def filterRates_def
  index_def isValidCurrency_def walletRepository_Exchange_def updateBalanceTx_def
  update_returning_def add_to_def no_faults_def maxRates_def wallet_of_def
  scenario_source_def scenario_quotes_def Let_def
section \<open>Properties of the number model\<close>
text \<open>
  Bounds and evaluation rules for the integer logarithm, for rounding to \<open>float64\<close>,
  for printing a \<open>float64\<close> and for assigning to a column. They replace the evaluation
  of the definitions by a check of the result: a rounding is determined by its exponent
  and its mantissa, a printed numeral by its digits.
\<close>
lemma ndigits_bounds:
  assumes b: "2 \<le> b"
  shows "0 < n \<Longrightarrow> b ^ (ndigits b n - 1) \<le> n \<and> n < b ^ ndigits b n"
proof (induction n rule: less_induct)
  case (less n)
  have nb: "\<not> b < 2" using b by simp
  show ?case
  proof (cases "n div b = 0")
    case True
    then have "n < b" using b by (simp add: div_eq_0_iff)
    moreover have "ndigits b n = Suc 0"
      using less.prems True nb by (simp add: ndigits.simps [of b n] ndigits.simps [of b 0])
    ultimately show ?thesis using less.prems by simp
  next
    case False
    then have pos: "0 < n div b" by simp
    have lt: "n div b < n" using less.prems b by simp
    from less.IH [OF lt pos] have ih1: "b ^ (ndigits b (n div b) - 1) \<le> n div b"
      and ih2: "n div b < b ^ ndigits b (n div b)" by simp_all
    have d: "ndigits b n = Suc (ndigits b (n div b))"
      using less.prems nb by (simp add: ndigits.simps [of b n])
    have k: "0 < ndigits b (n div b)"
      using pos nb by (simp add: ndigits.simps [of b "n div b"])
    then obtain j where j: "ndigits b (n div b) = Suc j" by (cases "ndigits b (n div b)") auto
    from ih1 j have "b * b ^ j \<le> b * (n div b)" by simp
    also have "\<dots> \<le> n" by simp
    finally have lo: "b ^ (ndigits b n - 1) \<le> n" by (simp add: d j)
    from ih2 have "n div b + 1 \<le> b ^ ndigits b (n div b)" by simp
    then have "b * (n div b + 1) \<le> b * b ^ ndigits b (n div b)" by (rule mult_le_mono2)
    moreover have "n < b + b * (n div b)" using b by (intro dividend_less_times_div) simp
    ultimately have hi: "n < b ^ ndigits b n" by (simp add: d)
    from lo hi show ?thesis by simp
  qed
qed

lemma ilog_bounds:
  assumes b: "2 \<le> b" and x: "0 < x"
  shows "of_nat b powi (ilog b x) \<le> x \<and> x < of_nat b powi (ilog b x + 1)"
proof (cases "1 \<le> x")
  case True
  let ?n = "nat \<lfloor>x\<rfloor>"
  let ?k = "ndigits b ?n"
  have n: "0 < ?n" using True by simp
  from ndigits_bounds [OF b n] have lo: "b ^ (?k - 1) \<le> ?n" and hi: "?n < b ^ ?k" by simp_all
  have k: "0 < ?k" using n b by (simp add: ndigits.simps [of b ?n])
  have il: "ilog b x = int (?k - 1)" using True k by (simp add: ilog_def)
  have il1: "ilog b x + 1 = int ?k" using k by (simp add: il)
  have "0 \<le> \<lfloor>x\<rfloor>" using True by simp
  then have nf: "(of_nat ?n :: rat) = of_int \<lfloor>x\<rfloor>" by (rule of_nat_nat)
  have nx: "of_nat ?n \<le> x" unfolding nf by simp
  have xn: "x < of_nat ?n + 1" unfolding nf by linarith
  have "(of_nat (b ^ (?k - 1)) :: rat) \<le> of_nat ?n" using lo by (simp only: of_nat_le_iff)
  then have "(of_nat b :: rat) ^ (?k - 1) \<le> of_nat ?n" by simp
  from this nx have "(of_nat b :: rat) ^ (?k - 1) \<le> x" by (rule order_trans)
  then have a: "of_nat b powi (ilog b x) \<le> x" by (simp only: il power_int_of_nat)
  have "?n + 1 \<le> b ^ ?k" using hi by linarith
  then have "(of_nat (?n + 1) :: rat) \<le> of_nat (b ^ ?k)" by (simp only: of_nat_le_iff)
  then have "(of_nat ?n :: rat) + 1 \<le> of_nat b ^ ?k" by simp
  with xn have "x < of_nat b ^ ?k" by (rule less_le_trans)
  then have c: "x < of_nat b powi (ilog b x + 1)" by (simp only: il1 power_int_of_nat)
  from a c show ?thesis by simp
next
  case False
  then have x1: "x < 1" by simp
  let ?y = "1 / x"
  let ?m = "\<lceil>?y\<rceil>"
  let ?n = "nat (?m - 1)"
  let ?k = "ndigits b ?n"
  have B: "(0::rat) < of_nat b" using b by simp
  have y1: "1 < ?y" using x x1 by simp
  then have m2: "2 \<le> ?m" by (simp add: le_ceiling_iff)
  then have n: "0 < ?n" by simp
  from ndigits_bounds [OF b n] have lo: "b ^ (?k - 1) \<le> ?n" and hi: "?n < b ^ ?k" by simp_all
  have k: "0 < ?k" using n b by (simp add: ndigits.simps [of b ?n])
  have il: "ilog b x = - int ?k" using False by (simp add: ilog_def)
  have il1: "ilog b x + 1 = - int (?k - 1)" using k by (simp add: il)
  have ym: "?y \<le> of_int ?m" by simp
  have my: "of_int ?m - 1 < ?y" by linarith
  have "0 \<le> ?m - 1" using m2 by linarith
  then have "(of_nat ?n :: rat) = of_int (?m - 1)" by (rule of_nat_nat)
  then have nm: "(of_nat ?n :: rat) = of_int ?m - 1" by simp
  have "?n + 1 \<le> b ^ ?k" using hi by linarith
  then have "(of_nat (?n + 1) :: rat) \<le> of_nat (b ^ ?k)" by (simp only: of_nat_le_iff)
  then have "(of_nat ?n :: rat) + 1 \<le> of_nat b ^ ?k" by simp
  with nm ym have "?y \<le> of_nat b ^ ?k" by linarith
  then have "1 / of_nat b ^ ?k \<le> x" using x B by (simp add: field_simps)
  then have a: "of_nat b powi (ilog b x) \<le> x"
    by (simp only: il power_int_minus_divide power_int_of_nat)
  have "(of_nat (b ^ (?k - 1)) :: rat) \<le> of_nat ?n" using lo by (simp only: of_nat_le_iff)
  then have "(of_nat b :: rat) ^ (?k - 1) \<le> of_nat ?n" by simp
  with nm my have "of_nat b ^ (?k - 1) < ?y" by linarith
  then have "x < 1 / of_nat b ^ (?k - 1)" using x B by (simp add: field_simps)
  then have c: "x < of_nat b powi (ilog b x + 1)"
    by (simp only: il1 power_int_minus_divide power_int_of_nat)
  from a c show ?thesis by simp
qed

lemma ilog_unique:
  assumes b: "2 \<le> b" and lo: "of_nat b powi e \<le> x" and hi: "x < of_nat b powi (e + 1)"
  shows "ilog b x = e"
proof -
  have B: "(1::rat) \<le> of_nat b" using b by simp
  have "(0::rat) < of_nat b powi e" using b by simp
  then have x: "0 < x" using lo by (rule less_le_trans)
  from ilog_bounds [OF b x] have l: "of_nat b powi (ilog b x) \<le> x"
    and h: "x < of_nat b powi (ilog b x + 1)" by simp_all
  have "\<not> ilog b x < e"
  proof
    assume "ilog b x < e"
    then have "ilog b x + 1 \<le> e" by simp
    then have "(of_nat b :: rat) powi (ilog b x + 1) \<le> of_nat b powi e"
      using B by (intro power_int_increasing)
    with lo h show False by linarith
  qed
  moreover have "\<not> e < ilog b x"
  proof
    assume "e < ilog b x"
    then have "e + 1 \<le> ilog b x" by simp
    then have "(of_nat b :: rat) powi (e + 1) \<le> of_nat b powi (ilog b x)"
      using B by (intro power_int_increasing)
    with l hi show False by linarith
  qed
  ultimately show ?thesis by linarith
qed

lemma powi2_split: "(2::rat) powi e = (if 0 \<le> e then 2 ^ nat e else 1 / 2 ^ nat (- e))"
  by (simp add: power_int_def power_one_over inverse_eq_divide)

lemma ilog2_bounds:
  assumes x: "0 < x"
  shows "2 powi (ilog 2 x) \<le> x \<and> x < 2 powi (ilog 2 x + 1)"
  using ilog_bounds [of 2 x] x by simp

lemma ilog2_unique:
  assumes lo: "2 powi e \<le> x" and hi: "x < 2 powi (e + 1)"
  shows "ilog 2 x = e"
  using ilog_unique [of 2 e x] lo hi by simp


lemma round_even_error: "\<bar>of_int (round_even x) - x\<bar> \<le> 1 / 2"
proof -
  have "of_int \<lfloor>x\<rfloor> \<le> x" and "x < of_int \<lfloor>x\<rfloor> + 1" by linarith+
  then show ?thesis by (auto simp: round_even_def Let_def)
qed

lemma round_even_eqI:
  assumes "\<bar>x - of_int m\<bar> < 1 / 2"
  shows "round_even x = m"
proof -
  have e: "\<bar>of_int (round_even x) - x\<bar> \<le> 1 / 2" by (rule round_even_error)
  have "\<bar>(of_int (round_even x) :: rat) - of_int m\<bar> < 1" using assms e by linarith
  then have "\<bar>(of_int (round_even x - m) :: rat)\<bar> < 1" by simp
  then have "\<bar>round_even x - m\<bar> < 1" by (metis of_int_abs of_int_less_1_iff)
  then show ?thesis by simp
qed

lemma round_even_of_int [simp]: "round_even (of_int m) = m"
  by (rule round_even_eqI) simp

text \<open>Evaluating \<open>round64\<close> at a positive number, from its exponent and its mantissa.\<close>

lemma round64_eqI:
  assumes lo: "2 powi e \<le> x" and hi: "x < 2 powi (e + 1)" and e: "- 1022 \<le> e"
    and m: "\<bar>x / 2 powi (e - 52) - of_int m\<bar> < 1 / 2"
    and fin: "of_int m * (2::rat) powi (e - 52) < 2 ^ 1024"
  shows "round64 x = Fin (of_int m * 2 powi (e - 52))"
proof -
  have x: "0 < x" using lo by (rule less_le_trans [rotated]) simp
  have il: "ilog 2 x = e" using lo hi by (rule ilog2_unique)
  have ax: "\<bar>x\<bar> = x" using x by simp
  have mx: "max e (- 1022) = e" using e by simp
  have re: "round_even (x / 2 powi (e - 52)) = m" by (rule round_even_eqI [OF m])
  show ?thesis
    using x fin by (simp add: round64_def ax il mx re Let_def)
qed

lemma round64_error:
  assumes r: "round64 x = Fin y"
  shows "\<bar>y - x\<bar> \<le> 2 powi (- 53) * max \<bar>x\<bar> (2 powi (- 1022))"
proof (cases "x = 0")
  case True
  with r show ?thesis by (simp add: round64_def)
next
  case False
  define e where "e = max (ilog 2 \<bar>x\<bar>) (- 1022)"
  define q :: rat where "q = 2 powi (e - 52)"
  define m where "m = round_even (\<bar>x\<bar> / q)"
  have q: "0 < q" by (simp add: q_def)
  have a: "0 < \<bar>x\<bar>" using False by simp
  from r False have y: "y = sgn x * (of_int m * q)"
    by (simp add: round64_def Let_def e_def [symmetric] q_def [symmetric] m_def [symmetric]
        split: if_splits)
  have "y - x = sgn x * (of_int m * q - \<bar>x\<bar>)"
    by (simp add: y algebra_simps mult_sgn_abs abs_mult_sgn)
  then have "\<bar>y - x\<bar> = \<bar>of_int m * q - \<bar>x\<bar>\<bar>"
    using False by (simp add: abs_mult abs_sgn_eq)
  also have "of_int m * q - \<bar>x\<bar> = (of_int m - \<bar>x\<bar> / q) * q" using q by (simp add: field_simps)
  also have "\<bar>\<dots>\<bar> = \<bar>of_int m - \<bar>x\<bar> / q\<bar> * q" using q by (simp add: abs_mult)
  also have "\<dots> \<le> 1 / 2 * q"
    using round_even_error [of "\<bar>x\<bar> / q"] q by (intro mult_right_mono) (simp_all add: m_def)
  also have "1 / 2 * q = 2 powi (- 53) * 2 powi e"
    by (simp add: q_def power_int_diff power_int_minus_divide)
  also have "\<dots> \<le> 2 powi (- 53) * max \<bar>x\<bar> (2 powi (- 1022))"
  proof (intro mult_left_mono)
    show "(2::rat) powi e \<le> max \<bar>x\<bar> (2 powi (- 1022))"
    proof (cases "- 1022 \<le> ilog 2 \<bar>x\<bar>")
      case True
      then have "e = ilog 2 \<bar>x\<bar>" by (simp add: e_def)
      with ilog2_bounds [OF a] have "(2::rat) powi e \<le> \<bar>x\<bar>" by (simp only:)
      then show ?thesis by (rule max.coboundedI1)
    next
      case False
      then have "e = - 1022" by (simp add: e_def)
      then have "(2::rat) powi e \<le> 2 powi (- 1022)" by (simp only: order_refl)
      then show ?thesis by (rule max.coboundedI2)
    qed
  qed simp
  finally show ?thesis .
qed

lemma round_even_mono_int:
  assumes "of_int n \<le> x"
  shows "n \<le> round_even x"
proof -
  from assms have "n \<le> \<lfloor>x\<rfloor>" by (simp add: le_floor_iff)
  moreover have "\<lfloor>x\<rfloor> \<le> round_even x" by (simp add: round_even_def Let_def)
  ultimately show ?thesis by simp
qed

text \<open>Overflow: a magnitude of \<open>2^1024\<close> and more rounds to infinity.\<close>

lemma round64_overflow:
  assumes x: "2 ^ 1024 \<le> x"
  shows "round64 x = PInf"
proof -
  have pos: "0 < x" using x by (rule less_le_trans [rotated]) simp
  define e where "e = ilog 2 x"
  define q :: rat where "q = 2 powi (e - 52)"
  have q: "0 < q" by (simp add: q_def)
  from ilog2_bounds [OF pos] have lo: "2 powi e \<le> x" and hi: "x < 2 powi (e + 1)"
    by (simp_all add: e_def)
  have "\<not> e + 1 \<le> 1024"
  proof
    assume "e + 1 \<le> 1024"
    then have "(2::rat) powi (e + 1) \<le> 2 powi 1024" by (intro power_int_increasing) simp_all
    with hi x show False by simp
  qed
  then have e: "1024 \<le> e" by simp
  then have mx: "max e (- 1022) = e" by simp
  have "(2::rat) powi 1024 \<le> 2 powi e" using e by (intro power_int_increasing) simp_all
  then have big: "(2::rat) ^ 1024 \<le> 2 powi e" by simp
  have "2 powi e / q = (2::rat) powi 52" by (simp add: q_def power_int_diff)
  moreover have "2 powi e / q \<le> x / q" using lo q by (intro divide_right_mono) simp_all
  ultimately have "(2::rat) powi 52 \<le> x / q" by simp
  then have "of_int (2 ^ 52) \<le> x / q" by simp
  then have "2 ^ 52 \<le> round_even (x / q)" by (rule round_even_mono_int)
  then have "(of_int (2 ^ 52) :: rat) \<le> of_int (round_even (x / q))" by (simp only: of_int_le_iff)
  then have "of_int (2 ^ 52) * q \<le> of_int (round_even (x / q)) * q"
    using q by (intro mult_right_mono) simp_all
  moreover have "of_int (2 ^ 52) * q = 2 powi e" by (simp add: q_def power_int_diff)
  ultimately have "2 ^ 1024 \<le> of_int (round_even (x / q)) * q" using big by linarith
  then show ?thesis
    using pos by (simp add: round64_def Let_def e_def [symmetric] mx q_def [symmetric])
qed

lemma round64_finite:
  assumes x: "\<bar>x\<bar> \<le> 2 ^ 1023"
  shows "\<exists>y. round64 x = Fin y"
proof (cases "x = 0")
  case True
  then show ?thesis by (simp add: round64_def)
next
  case False
  define e where "e = max (ilog 2 \<bar>x\<bar>) (- 1022)"
  define q :: rat where "q = 2 powi (e - 52)"
  define m where "m = round_even (\<bar>x\<bar> / q)"
  have q: "0 < q" by (simp add: q_def)
  have a: "0 < \<bar>x\<bar>" using False by simp
  have pe: "(2::rat) powi e \<le> 2 ^ 1023"
  proof (cases "- 1022 \<le> ilog 2 \<bar>x\<bar>")
    case True
    then have "e = ilog 2 \<bar>x\<bar>" by (simp add: e_def)
    with ilog2_bounds [OF a] x show ?thesis by simp
  next
    case False
    then have "e = - 1022" by (simp add: e_def)
    then show ?thesis by (simp add: powi2_split)
  qed
  have "\<bar>of_int m - \<bar>x\<bar> / q\<bar> \<le> 1 / 2" unfolding m_def by (rule round_even_error)
  then have "of_int m \<le> \<bar>x\<bar> / q + 1 / 2" by linarith
  then have "of_int m * q \<le> (\<bar>x\<bar> / q + 1 / 2) * q" using q by (intro mult_right_mono) simp_all
  also have "\<dots> = \<bar>x\<bar> + 1 / 2 * q" using q by (simp add: field_simps)
  also have "1 / 2 * q = 2 powi (- 53) * 2 powi e"
    by (simp add: q_def power_int_diff power_int_minus_divide)
  also have "\<dots> \<le> 2 powi (- 53) * 2 ^ 1023" using pe by (intro mult_left_mono) simp_all
  finally have "of_int m * q \<le> 2 ^ 1023 + 2 powi (- 53) * 2 ^ 1023" using x by simp
  also have "\<dots> < 2 ^ 1024" by (simp add: powi2_split)
  finally have "\<not> 2 ^ 1024 \<le> of_int m * q" by simp
  then show ?thesis
    using False
    by (simp add: round64_def Let_def e_def [symmetric] q_def [symmetric] m_def [symmetric])
qed

subsection \<open>Printing a float64\<close>

lemma candidate_round_trip: "candidate x n = Some d \<Longrightarrow> round64 d = Fin x"
  by (auto simp: candidate_def Let_def split: if_splits)

lemma shortest_round_trip: "shortest x ns = d \<Longrightarrow> d = x \<or> round64 d = Fin x"
proof (induction ns)
  case Nil
  then show ?case by simp
next
  case (Cons n ns)
  show ?case
  proof (cases "candidate x n")
    case None
    with Cons show ?thesis by simp
  next
    case (Some c)
    with Cons.prems have "d = c" by simp
    with Some show ?thesis by (simp add: candidate_round_trip)
  qed
qed




lemma FormatFloat_error:
  assumes x: "2 powi (- 1021) \<le> \<bar>x\<bar>"
  shows "\<bar>FormatFloat x - x\<bar> \<le> 2 powi (- 52) * \<bar>x\<bar>"
proof -
  define a where "a = \<bar>x\<bar>"
  define u :: rat where "u = 2 powi (- 53)"
  define L :: rat where "L = 2 powi (- 1022)"
  define d where "d = shortest a [1, 2, 3, 4, 5, 6, 7, 8, 9, 10, 11, 12, 13, 14, 15, 16, 17]"
  have a: "0 < a" using x unfolding a_def by (rule less_le_trans [rotated]) simp
  have x0: "x \<noteq> 0" using a by (auto simp: a_def)
  have u: "0 < u" "u \<le> 1 / 2" by (simp_all add: u_def powi2_split)
  have uu: "2 * u = 2 powi (- 52)" by (simp add: u_def powi2_split)
  have L: "0 < L" by (simp add: L_def)
  have La: "2 * L \<le> a" using x by (simp add: L_def a_def powi2_split)
  have ff: "FormatFloat x = sgn x * d" using x0 by (simp add: FormatFloat_def d_def a_def)
  have "FormatFloat x - x = sgn x * (d - a)"
    by (simp add: ff a_def algebra_simps mult_sgn_abs abs_mult_sgn)
  then have e: "\<bar>FormatFloat x - x\<bar> = \<bar>d - a\<bar>" using x0 by (simp add: abs_mult abs_sgn_eq)
  have "\<bar>d - a\<bar> \<le> 2 * u * a"
  proof (cases "d = a")
    case True
    then show ?thesis using a u by simp
  next
    case False
    with shortest_round_trip [OF d_def [symmetric]] have "round64 d = Fin a" by simp
    from round64_error [OF this] have r: "\<bar>a - d\<bar> \<le> u * max \<bar>d\<bar> L" by (simp add: u_def L_def)
    have big: "L < \<bar>d\<bar>"
    proof (rule ccontr)
      assume "\<not> L < \<bar>d\<bar>"
      then have "max \<bar>d\<bar> L = L" "\<bar>d\<bar> \<le> L" by simp_all
      with r have "\<bar>a - d\<bar> \<le> u * L" by simp
      moreover have "u * L \<le> 1 / 2 * L" using u L by (intro mult_right_mono) simp_all
      ultimately have "a \<le> L + 1 / 2 * L" using \<open>\<bar>d\<bar> \<le> L\<close> by linarith
      with La L show False by linarith
    qed
    then have "max \<bar>d\<bar> L = \<bar>d\<bar>" by simp
    with r have t: "\<bar>a - d\<bar> \<le> u * \<bar>d\<bar>" by simp
    have "\<bar>d\<bar> \<le> a + \<bar>a - d\<bar>" using a by linarith
    then have "u * \<bar>d\<bar> \<le> u * (a + \<bar>a - d\<bar>)" using u by (intro mult_left_mono) simp_all
    also have "\<dots> = u * a + u * \<bar>a - d\<bar>" by (simp add: algebra_simps)
    also have "u * \<bar>a - d\<bar> \<le> 1 / 2 * \<bar>a - d\<bar>" using u by (intro mult_right_mono) simp_all
    finally have "u * \<bar>d\<bar> \<le> u * a + 1 / 2 * \<bar>a - d\<bar>" by simp
    moreover define t where "t = \<bar>a - d\<bar>"
    moreover define v where "v = u * \<bar>d\<bar>"
    moreover define w where "w = u * a"
    ultimately have "v \<le> w + 1 / 2 * t" "t \<le> v" using t by simp_all
    then have "t \<le> 2 * w" by linarith
    then have "\<bar>a - d\<bar> \<le> 2 * (u * a)" by (simp add: t_def w_def)
    then show ?thesis by (simp add: abs_minus_commute algebra_simps)
  qed
  then have "\<bar>FormatFloat x - x\<bar> \<le> 2 * u * a" by (simp only: e)
  then show ?thesis by (simp only: uu a_def)
qed

subsection \<open>Columns\<close>

lemma round_away_eqI:
  assumes "\<bar>x * 10 ^ s - of_int k\<bar> < 1 / 2"
  shows "round_away s x = of_int k / 10 ^ s"
proof -
  define y where "y = x * 10 ^ s"
  have lo: "of_int k - 1 / 2 < y" and hi: "y < of_int k + 1 / 2"
    using assms unfolding y_def by linarith+
  consider "0 < x" | "x = 0" | "x < 0" by linarith
  then show ?thesis
  proof cases
    case 1
    then have "\<bar>x\<bar> * 10 ^ s = x * 10 ^ s" by simp
    moreover have "\<lfloor>x * 10 ^ s + 1 / 2\<rfloor> = k"
    proof (rule floor_unique)
      show "of_int k \<le> x * 10 ^ s + 1 / 2" using lo unfolding y_def by linarith
      show "x * 10 ^ s + 1 / 2 < of_int k + 1" using hi unfolding y_def by linarith
    qed
    ultimately show ?thesis using 1 by (simp add: round_away_def)
  next
    case 2
    with assms have "\<bar>(of_int k :: rat)\<bar> < 1" by simp
    then have "\<bar>k\<bar> < 1" by (metis of_int_abs of_int_less_1_iff)
    then have "k = 0" by simp
    with 2 show ?thesis by (simp add: round_away_def)
  next
    case 3
    then have a: "\<bar>x\<bar> * 10 ^ s = - (x * 10 ^ s)" by simp
    have "\<lfloor>- (x * 10 ^ s) + 1 / 2\<rfloor> = - k"
    proof (rule floor_unique)
      have m: "(of_int (- k) :: rat) = - of_int k" by simp
      show "of_int (- k) \<le> - (x * 10 ^ s) + 1 / 2" using hi unfolding y_def m by linarith
      show "- (x * 10 ^ s) + 1 / 2 < of_int (- k) + 1" using lo unfolding y_def m by linarith
    qed
    then show ?thesis using 3 by (simp add: round_away_def a)
  qed
qed


text \<open>
  Storing \<open>c + $1\<close> when the sum is nowhere near a tie: the printed parameter differs from
  the \<open>float64\<close> by less than the distance of the sum to the next tie.
\<close>

lemma numeric_add_eqI:
  assumes a: "2 powi (- 1021) \<le> \<bar>a\<bar>"
    and k: "\<bar>(c + a) * 10 ^ s - of_int k\<bar> + 10 ^ s * (2 powi (- 52) * \<bar>a\<bar>) < 1 / 2"
    and fits: "\<bar>of_int k / (10::rat) ^ s\<bar> < 10 ^ (p - s)"
  shows "numeric p s (c + FormatFloat a) = Some (of_int k / 10 ^ s)"
proof -
  have "\<bar>FormatFloat a - a\<bar> \<le> 2 powi (- 52) * \<bar>a\<bar>" by (rule FormatFloat_error [OF a])
  then have "10 ^ s * \<bar>FormatFloat a - a\<bar> \<le> 10 ^ s * (2 powi (- 52) * \<bar>a\<bar>)"
    by (intro mult_left_mono) simp_all
  moreover have "(c + FormatFloat a) * 10 ^ s - of_int k
      = ((c + a) * 10 ^ s - of_int k) + 10 ^ s * (FormatFloat a - a)"
    by (simp add: algebra_simps)
  moreover have "\<bar>(10::rat) ^ s * (FormatFloat a - a)\<bar> = 10 ^ s * \<bar>FormatFloat a - a\<bar>"
    by (simp add: abs_mult)
  ultimately have "\<bar>(c + FormatFloat a) * 10 ^ s - of_int k\<bar> < 1 / 2"
    using k by linarith
  then have "round_away s (c + FormatFloat a) = of_int k / 10 ^ s" by (rule round_away_eqI)
  with fits show ?thesis by (simp add: numeric_def)
qed
section \<open>The arithmetic of the scenarios\<close>
text \<open>
  The \<open>float64\<close> operations, the parameters and the column assignments that the
  scenarios below go through, each one evaluated.
\<close>
lemma inv_90: "fdiv 1 90 = Fin (6405119470038039 / 576460752303423488)"
  using round64_eqI [of "- 7" "1 / 90" 6405119470038039] by (simp add: fdiv_def powi2_split)

lemma usd_eur_rate: "fmul (Fin (6405119470038039 / 576460752303423488)) (Fin 80) = Fin (8006399337547549 / 9007199254740992)"
  using round64_eqI [of "- 1" "(6405119470038039 / 576460752303423488) * 80" 8006399337547549] by (simp add: fmul.simps powi2_split)

lemma usd_eur_100: "fmul (Fin 100) (Fin (8006399337547549 / 9007199254740992)) = Fin (6254999482459023 / 70368744177664)"
  using round64_eqI [of "6" "100 * (8006399337547549 / 9007199254740992)" 6254999482459023] by (simp add: fmul.simps powi2_split)

lemma inv_80: "fdiv 1 80 = Fin (3602879701896397 / 288230376151711744)"
  using round64_eqI [of "- 7" "1 / 80" 7205759403792794] by (simp add: fdiv_def powi2_split)

lemma rub_usd_1000: "fmul (Fin 1000) (Fin (3602879701896397 / 288230376151711744)) = Fin (25 / 2)"
  using round64_eqI [of "3" "1000 * (3602879701896397 / 288230376151711744)" 7036874417766400] by (simp add: fmul.simps powi2_split)

lemma literal_005: "round64 (1 / 20) = Fin (3602879701896397 / 72057594037927936)"
  using round64_eqI [of "- 5" "1 / 20" 7205759403792794] by (simp add: powi2_split)

lemma usd_rub_100: "fmul (Fin 100) (Fin 101) = Fin 10100"
  using round64_eqI [of "13" "100 * 101" 5552533720268800] by (simp add: fmul.simps powi2_split)



lemma half_cent_exact: "round64 (5764607523034235 / 1152921504606846976) = Fin (5764607523034235 / 1152921504606846976)"
  using round64_eqI [of "- 8" "5764607523034235 / 1152921504606846976" 5764607523034235] by (simp add: powi2_split)



lemma thirty_times_1: "fmul (Fin 30) (Fin 1) = Fin 30"
  using round64_eqI [of "4" "30 * 1" 8444249301319680] by (simp add: fmul.simps powi2_split)

lemma debit_150_100: "numeric 15 2 (150 + FormatFloat (- 100)) = Some 50"
  using numeric_add_eqI [of "- (100)" "150" 2 "5000" 15] by (simp add: powi2_split)

lemma debit_50_100: "numeric 15 2 (50 + FormatFloat (- 100)) = Some (- 50)"
  using numeric_add_eqI [of "- (100)" "50" 2 "-5000" 15] by (simp add: powi2_split)

lemma debit_10_1000: "numeric 15 2 (10 + FormatFloat (- 1000)) = Some (- 990)"
  using numeric_add_eqI [of "- (1000)" "10" 2 "-99000" 15] by (simp add: powi2_split)

lemma store_80: "numeric 10 6 (FormatFloat 80) = Some 80"
  using numeric_add_eqI [of "80" 0 6 "80000000" 10] by (simp add: powi2_split)

lemma store_90: "numeric 10 6 (FormatFloat 90) = Some 90"
  using numeric_add_eqI [of "90" 0 6 "90000000" 10] by (simp add: powi2_split)

lemma store_1: "numeric 10 6 (FormatFloat 1) = Some 1"
  using numeric_add_eqI [of "1" 0 6 "1000000" 10] by (simp add: powi2_split)

lemma store_256th: "numeric 10 6 (FormatFloat (1 / 256)) = Some (1953 / 500000)"
  using numeric_add_eqI [of "1 / 256" 0 6 "3906" 10] by (simp add: powi2_split)

lemma credit_eur0: "numeric 15 2 (FormatFloat (6254999482459023 / 70368744177664)) = Some (8889 / 100)"
  using numeric_add_eqI [of "6254999482459023 / 70368744177664" 0 2 "8889" 15] by (simp add: powi2_split)

lemma credit_rub0: "numeric 15 2 (FormatFloat 10100) = Some 10100"
  using numeric_add_eqI [of "10100" 0 2 "1010000" 15] by (simp add: powi2_split)

lemma deposit_10_0: "numeric 15 2 (FormatFloat 10) = Some 10"
  using numeric_add_eqI [of "10" 0 2 "1000" 15] by (simp add: powi2_split)

lemma credit_usd0: "numeric 15 2 (FormatFloat (25 / 2)) = Some (25 / 2)"
  using numeric_add_eqI [of "25 / 2" 0 2 "1250" 15] by (simp add: powi2_split)

lemma debit_0_5: "numeric 15 2 (FormatFloat (- 5)) = Some (- 5)"
  using numeric_add_eqI [of "- (5)" 0 2 "-500" 15] by (simp add: powi2_split)

lemma credit_0_5: "numeric 15 2 (FormatFloat 5) = Some 5"
  using numeric_add_eqI [of "5" 0 2 "500" 15] by (simp add: powi2_split)


section \<open>Stored quotes and their refresh\<close>

text \<open>
  C6. A refresh whose quote fetch fails returns an error and leaves the storage, and so
  the stored quotes with their timestamps, as it was; a second failed refresh right
  after it does the same, so the storage still equals the one before the first failure.
\<close>

theorem failed_refresh_keeps_snapshot:
  "fst (UpdateRatesFromCB fl now (Inl e) s)
     = Some (if apiURL s = [] then ErrURLNotConfigured else ErrFetch e) \<and>
   snd (UpdateRatesFromCB fl now (Inl e) s) = s \<and>
   fst (UpdateRatesFromCB fl' now' (Inl e') (snd (UpdateRatesFromCB fl now (Inl e) s)))
     = Some (if apiURL s = [] then ErrURLNotConfigured else ErrFetch e') \<and>
   snd (UpdateRatesFromCB fl' now' (Inl e') (snd (UpdateRatesFromCB fl now (Inl e) s))) = s"
  by (simp add: UpdateRatesFromCB_def)

text \<open>
  A successful run of the upsert loop overwrites the table with one row for every fetched
  entry, holding the rate as the column stores it: rounded to six decimals.
\<close>

lemma numeric_Some: "numeric p s x = Some v \<Longrightarrow> v = round_away s x"
  by (auto simp: numeric_def Let_def split: if_splits)

lemma upsert_rates_result:
  "upsert_rates bad now rates tx = Inr tx' \<Longrightarrow>
   tx' = tx ++ map_of (rev (map (\<lambda>(c, r).
           (c, \<lparr>row_rate = round_away 6 (FormatFloat r), row_updated_at = now\<rparr>)) rates))"
proof (induction rates arbitrary: tx)
  case Nil
  then show ?case by simp
next
  case (Cons p rates)
  obtain c r where p: "p = (c, r)" by (cases p)
  from Cons.prems p obtain v where v: "numeric 10 6 (FormatFloat r) = Some v"
    and rest: "upsert_rates bad now rates (tx(c \<mapsto> \<lparr>row_rate = v, row_updated_at = now\<rparr>)) = Inr tx'"
    by (auto split: if_splits option.splits)
  from numeric_Some [OF v] have "v = round_away 6 (FormatFloat r)" .
  with Cons.IH [OF rest] show ?case
    by (simp add: p map_add_def fun_eq_iff split: option.splits)
qed

lemma map_of_rev_distinct:
  "distinct (map fst xs) \<Longrightarrow> map_of (rev xs) = map_of xs"
  by (rule map_of_inject_set[THEN iffD2]) (auto simp: rev_map[symmetric])

lemma refresh_stale:
  "UpdateRatesFromCB healthy 7 (Inr fresh_quotes) stale_storage =
     (None, \<lparr>apiURL = ''http://cbr'',
        exchange_rates = [''XDR'' \<mapsto> \<lparr>row_rate = 100, row_updated_at = 0\<rparr>,
                          ''USD'' \<mapsto> \<lparr>row_rate = 80, row_updated_at = 7\<rparr>,
                          ''EUR'' \<mapsto> \<lparr>row_rate = 90, row_updated_at = 7\<rparr>,
                          ''RUB'' \<mapsto> \<lparr>row_rate = 1, row_updated_at = 7\<rparr>,
                          ''VND'' \<mapsto> \<lparr>row_rate = 1953 / 500000, row_updated_at = 7\<rparr>]\<rparr>)"
  by (simp add: UpdateRatesFromCB_def healthy_def fresh_quotes_def stale_storage_def
      store_80 store_90 store_1 store_256th)

text \<open>
  C5, as the code has it. A successful refresh upserts: afterwards every fetched currency
  holds its fetched rate rounded to the six decimals of column \<open>rate\<close> (stamped with the
  time of the refresh), and every currency that the fetch does not list keeps the row it
  had. The stored set is the old set overwritten by the fetched one, not the fetched set
  alone, and a stored rate is the fetched rate only up to that rounding.
\<close>

theorem refresh_merges_into_table:
  assumes ok: "UpdateRatesFromCB fl now (Inr rates) s = (None, s')"
    and keys: "distinct (map fst rates)"
  shows "exchange_rates s' c =
           (case map_of rates c of
              Some r \<Rightarrow> Some \<lparr>row_rate = round_away 6 (FormatFloat r), row_updated_at = now\<rparr>
            | None \<Rightarrow> exchange_rates s c)"
proof -
  let ?row = "\<lambda>r. \<lparr>row_rate = round_away 6 (FormatFloat r), row_updated_at = now\<rparr>"
  let ?rows = "map (\<lambda>(c, r). (c, ?row r)) rates"
  from ok obtain tx where up: "upsert_rates (exec_fails fl) now rates (exchange_rates s) = Inr tx"
    and s': "s' = s\<lparr>exchange_rates := tx\<rparr>"
    by (auto simp: UpdateRatesFromCB_def split: if_splits sum.splits)
  have fst_rows: "map fst ?rows = map fst rates" by (induction rates) auto
  have "tx = exchange_rates s ++ map_of (rev ?rows)" by (rule upsert_rates_result [OF up])
  also have "map_of (rev ?rows) = map_of ?rows"
    by (intro map_of_rev_distinct) (simp only: fst_rows keys)
  also have "map_of ?rows = map_option ?row \<circ> map_of rates"
    by (induction rates) (auto simp: fun_eq_iff)
  finally show ?thesis
    by (simp add: s' map_add_def split: option.splits)
qed

theorem refresh_merges_into_table_witness:
  "UpdateRatesFromCB healthy 7 (Inr fresh_quotes) stale_storage
     = (None, snd (UpdateRatesFromCB healthy 7 (Inr fresh_quotes) stale_storage)) \<and>
   distinct (map fst fresh_quotes) \<and>
   exchange_rates (snd (UpdateRatesFromCB healthy 7 (Inr fresh_quotes) stale_storage)) ''VND''
     = Some \<lparr>row_rate = round_away 6 (FormatFloat (1 / 256)), row_updated_at = 7\<rparr> \<and>
   exchange_rates (snd (UpdateRatesFromCB healthy 7 (Inr fresh_quotes) stale_storage)) ''XDR''
     = exchange_rates stale_storage ''XDR''"
proof -
  have ok: "UpdateRatesFromCB healthy 7 (Inr fresh_quotes) stale_storage
     = (None, snd (UpdateRatesFromCB healthy 7 (Inr fresh_quotes) stale_storage))"
    by (simp add: refresh_stale)
  have keys: "distinct (map fst fresh_quotes)" by (simp add: fresh_quotes_def)
  have vnd: "map_of fresh_quotes ''VND'' = Some (1 / 256)" by (simp add: fresh_quotes_def)
  have xdr: "map_of fresh_quotes ''XDR'' = None" by (simp add: fresh_quotes_def)
  note a = refresh_merges_into_table [OF ok keys, of "''VND''"]
  note b = refresh_merges_into_table [OF ok keys, of "''XDR''"]
  from a b ok keys show ?thesis by (simp only: vnd xdr option.case simp_thms)
qed

text \<open>
  The rounding is visible: the fetched rate \<open>1 / 256 = 0.00390625\<close> is stored as
  \<open>0.003906\<close>.
\<close>

lemma stored_rate_is_rounded:
  "round_away 6 (FormatFloat (1 / 256)) = 1953 / 500000 \<and> (1953 / 500000 :: rat) \<noteq> 1 / 256"
  using numeric_Some [OF store_256th] by simp

text \<open>
  The claim of C5 as it is written fails: the refresh below succeeds, the fetch has no
  entry for \<open>XDR\<close>, and the row of \<open>XDR\<close> is still stored afterwards.
\<close>

theorem refresh_not_wholesale_counterexample:
  "fst (UpdateRatesFromCB healthy 7 (Inr fresh_quotes) stale_storage) = None \<and>
   map_of fresh_quotes ''XDR'' = None \<and>
   exchange_rates (snd (UpdateRatesFromCB healthy 7 (Inr fresh_quotes) stale_storage)) ''XDR''
     = Some \<lparr>row_rate = 100, row_updated_at = 0\<rparr>"
  by (simp add: refresh_stale) (simp add: fresh_quotes_def)

section \<open>Zero quotes\<close>

text \<open>
  C10. The wallet's resolver tests both base quotes before it looks at the pair: for any
  two distinct currencies the resolution fails as soon as the \<open>USD\<close> quote or the \<open>EUR\<close>
  quote is missing or zero, whether or not that currency is part of the pair (resolving
  \<open>RUB\<close> to \<open>EUR\<close> fails when only the \<open>USD\<close> quote is absent).
\<close>

theorem base_quotes_required_for_every_pair:
  assumes "from \<noteq> to" and "GetRates src = Inr rates"
    and "rates ''USD'' = None \<or> rates ''USD'' = Some 0 \<or>
         rates ''EUR'' = None \<or> rates ''EUR'' = Some 0"
  shows "ExchangeService_GetRate src from to = Inl ErrBaseRatesUnavailable"
proof -
  from assms(3) have "index rates ''USD'' = 0 \<or> index rates ''EUR'' = 0"
    by (auto simp: index_def)
  with assms(1,2) show ?thesis
    by (simp add: ExchangeService_GetRate_def)
qed

theorem base_quotes_required_for_every_pair_witness:
  "''RUB'' \<noteq> ''EUR'' \<and>
   GetRates quotes_without_usd = Inr [''EUR'' \<mapsto> 90, ''RUB'' \<mapsto> 1] \<and>
   [''EUR'' \<mapsto> 90, ''RUB'' \<mapsto> (1::rat)] ''USD'' = None \<and>
   ExchangeService_GetRate quotes_without_usd ''RUB'' ''EUR'' = Inl ErrBaseRatesUnavailable"
proof -
  have r: "GetRates quotes_without_usd = Inr [''EUR'' \<mapsto> 90, ''RUB'' \<mapsto> 1]"
    by (simp add: GetRates_def filterRates_def quotes_without_usd_def)
  have m: "[''EUR'' \<mapsto> 90, ''RUB'' \<mapsto> (1::rat)] ''USD'' = None" by simp
  have d: "''RUB'' \<noteq> ''EUR''" by simp
  have "ExchangeService_GetRate quotes_without_usd ''RUB'' ''EUR'' = Inl ErrBaseRatesUnavailable"
    by (rule base_quotes_required_for_every_pair [OF d r]) (simp only: m simp_thms)
  with m d r show ?thesis by (simp only: simp_thms)
qed

lemma float64_of_0: "float64_of 0 = 0"
  by (simp add: float64_of_def round64_def)

text \<open>
  C7 at the exchanger's resolver, which has no test of the quote: with a stored \<open>EUR\<close> quote of
  zero, resolving \<open>EUR\<close> to \<open>USD\<close> takes the reciprocal branch, divides by the zero quote
  and returns positive infinity with no error.
\<close>

theorem exchanger_reciprocal_of_zero_quote:
  "PostgresStorage_GetRate [''EUR'' \<mapsto> \<lparr>row_rate = 0, row_updated_at = 0\<rparr>] ''EUR'' ''USD''
     = Inr PInf"
  by (simp add: PostgresStorage_GetRate.simps fdiv_def float64_of_0)

section \<open>The scenario of the specification\<close>

lemma scenario_rate:
  "ExchangeService_GetRate scenario_source ''USD'' ''EUR''
     = Inr (Fin (8006399337547549 / 9007199254740992))"
  by (simp add: wallet_defs inv_90 usd_eur_rate)

text \<open>
  C4, as the code has it. The quotes are prices in roubles, and the resolver converts
  \<open>USD\<close> to \<open>EUR\<close> through the rouble: the rate is the \<open>float64\<close> product
  \<open>(1 / 90) * 80\<close>, which is \<open>8006399337547549 / 2^53\<close> (\<open>0.888888888888889\<close> to fifteen
  digits; it is not the rational \<open>80 / 90\<close>). Exchanging 100 \<open>USD\<close> from the balance
  \<open>{USD: 150, EUR: 0}\<close> debits 100 \<open>USD\<close> and credits 100 times that rate, which column
  \<open>eur\<close> stores rounded to two decimals: the balance afterwards is \<open>{USD: 50, EUR: 88.89}\<close>.
\<close>

theorem scenario_exchange:
  "ExchangeService_GetRate scenario_source ''USD'' ''EUR''
     = Inr (Fin (8006399337547549 / 9007199254740992)) \<and>
   WalletService_Exchange scenario_source no_faults (wallet_of \<lparr>usd = 150, rub = 0, eur = 0\<rparr>)
       1 ''USD'' ''EUR'' 100
     = (Inr \<lparr>ExchangedAmount = Fin (6254999482459023 / 70368744177664),
             NewBalance = scan_row \<lparr>usd = 50, rub = 0, eur = 8889 / 100\<rparr>,
             Rate = Fin (8006399337547549 / 9007199254740992)\<rparr>,
        wallet_of \<lparr>usd = 50, rub = 0, eur = 8889 / 100\<rparr>)"
  by (simp add: wallet_defs inv_90 usd_eur_rate usd_eur_100 debit_150_100 credit_eur0)

text \<open>
  The figures of C4 as they are written do not come out: the resolved rate is not
  \<open>90 / 80\<close>, and the balance afterwards is not \<open>{USD: 50, EUR: 112.5}\<close>.
\<close>

theorem scenario_exchange_counterexample:
  "ExchangeService_GetRate scenario_source ''USD'' ''EUR'' \<noteq> Inr (Fin (90 / 80)) \<and>
   wallets (snd (WalletService_Exchange scenario_source no_faults
          (wallet_of \<lparr>usd = 150, rub = 0, eur = 0\<rparr>) 1 ''USD'' ''EUR'' 100)) 1
     \<noteq> Some \<lparr>usd = 50, rub = 0, eur = 225 / 2\<rparr>"
  by (simp add: wallet_defs inv_90 usd_eur_rate usd_eur_100 debit_150_100 credit_eur0)

section \<open>Exchanges and the balance\<close>

text \<open>
  What the code keeps. A transaction that returns an error leaves the database as it
  was, and a rate rejected by the first plausibility test is rejected before the
  repository is called.
\<close>

lemma walletRepository_Exchange_all_or_nothing:
  "walletRepository_Exchange fl db userID fromCurrency toCurrency amount rate = (Inl e, db')
     \<Longrightarrow> db' = db"
  by (auto simp: walletRepository_Exchange_def Let_def split: if_splits sum.splits prod.splits)

lemma Transfer_all_or_nothing:
  "Transfer fl db fromUserID toUserID currency amount = (Inl e, db') \<Longrightarrow> db' = db"
  by (auto simp: Transfer_def split: if_splits sum.splits prod.splits)

lemma early_rate_check_keeps_balance:
  assumes "ExchangeService_GetRate src fromCurrency toCurrency = Inr rate"
    and "(fromCurrency = ''RUB'' \<and> toCurrency = ''USD'' \<and> flt (round64 (1 / 20)) rate) \<or>
         (fromCurrency = ''USD'' \<and> toCurrency = ''RUB'' \<and> flt rate (Fin 10))"
  shows "\<exists>e. WalletService_Exchange src fl db userID fromCurrency toCurrency amount = (Inl e, db)"
  using assms by (auto simp: WalletService_Exchange_def)

text \<open>
  C1 on the code: with the scenario's quotes and the balance \<open>{USD: 50}\<close>, the request to
  exchange 100 \<open>USD\<close> to \<open>EUR\<close> succeeds. Both legs are applied and the stored \<open>USD\<close>
  amount becomes \<open>- 50\<close> (the \<open>EUR\<close> amount \<open>88.89\<close>); no test compares the debit with
  the balance.
\<close>

theorem exchange_overdraws_balance:
  "WalletService_Exchange scenario_source no_faults (wallet_of \<lparr>usd = 50, rub = 0, eur = 0\<rparr>)
       1 ''USD'' ''EUR'' 100
     = (Inr \<lparr>ExchangedAmount = Fin (6254999482459023 / 70368744177664),
             NewBalance = scan_row \<lparr>usd = - 50, rub = 0, eur = 8889 / 100\<rparr>,
             Rate = Fin (8006399337547549 / 9007199254740992)\<rparr>,
        wallet_of \<lparr>usd = - 50, rub = 0, eur = 8889 / 100\<rparr>)"
  by (simp add: wallet_defs inv_90 usd_eur_rate usd_eur_100 debit_50_100 credit_eur0)

text \<open>
  C2 on the code: the \<open>maxRates\<close> test runs after \<open>repo.Exchange\<close> has committed. At a
  dollar quote of 101 roubles, exchanging 100 \<open>USD\<close> to \<open>RUB\<close> passes the first test
  (the rate is not below 10), commits both legs, and then returns the error of the second
  test (the rate exceeds 100): the operation fails and the balance has changed.
\<close>

theorem late_rate_check_after_commit:
  "WalletService_Exchange dear_dollar_source no_faults (wallet_of \<lparr>usd = 150, rub = 0, eur = 0\<rparr>)
       1 ''USD'' ''RUB'' 100
     = (Inl (ErrRateTooHigh (Fin 101)), wallet_of \<lparr>usd = 50, rub = 10100, eur = 0\<rparr>)"
  by (simp add: wallet_defs dear_dollar_source_def usd_rub_100 debit_150_100 credit_rub0)

text \<open>
  The repository's transfer debits the sender without a test, too.
\<close>

lemma transfer_overdraws:
  "Transfer no_faults
     \<lparr>users = {1, 2}, wallets = [1 \<mapsto> \<lparr>usd = 0, rub = 0, eur = 0\<rparr>,
                                  2 \<mapsto> \<lparr>usd = 0, rub = 0, eur = 0\<rparr>]\<rparr> 1 2 ''USD'' 5
   = (Inr (scan_row \<lparr>usd = - 5, rub = 0, eur = 0\<rparr>, scan_row \<lparr>usd = 5, rub = 0, eur = 0\<rparr>),
      \<lparr>users = {1, 2}, wallets = [1 \<mapsto> \<lparr>usd = - 5, rub = 0, eur = 0\<rparr>,
                                   2 \<mapsto> \<lparr>usd = 5, rub = 0, eur = 0\<rparr>]\<rparr>)"
  by (simp add: Transfer_def updateBalanceTx_def update_returning_def add_to_def no_faults_def
      debit_0_5 credit_0_5)

lemma deposit_step:
  "Deposit (wallet_of \<lparr>usd = 0, rub = 0, eur = 0\<rparr>) 1 ''RUB'' 10
     = (Inr (scan_row \<lparr>usd = 0, rub = 10, eur = 0\<rparr>), wallet_of \<lparr>usd = 0, rub = 10, eur = 0\<rparr>)"
  by (simp add: Deposit_def UpdateBalance_def wallet_defs deposit_10_0)

lemma exchange_step:
  "WalletService_Exchange scenario_source no_faults (wallet_of \<lparr>usd = 0, rub = 10, eur = 0\<rparr>)
       1 ''RUB'' ''USD'' 1000
     = (Inr \<lparr>ExchangedAmount = Fin (25 / 2),
             NewBalance = scan_row \<lparr>usd = 25 / 2, rub = - 990, eur = 0\<rparr>,
             Rate = Fin (3602879701896397 / 288230376151711744)\<rparr>,
        wallet_of \<lparr>usd = 25 / 2, rub = - 990, eur = 0\<rparr>)"
  by (simp add: wallet_defs inv_80 rub_usd_1000 literal_005 debit_10_1000 credit_usd0)

text \<open>
  C3 on the code: from the empty balance, a deposit of 10 \<open>RUB\<close> and then an exchange of
  1000 \<open>RUB\<close> to \<open>USD\<close> both succeed, and the balance reached has \<open>- 990\<close> \<open>RUB\<close>. The
  starting balance satisfies the invariant, the balance reached does not.
\<close>

theorem negative_balance_reachable:
  "non_negative \<lparr>usd = 0, rub = 0, eur = 0\<rparr> \<and>
   Deposit (wallet_of \<lparr>usd = 0, rub = 0, eur = 0\<rparr>) 1 ''RUB'' 10
     = (Inr (scan_row \<lparr>usd = 0, rub = 10, eur = 0\<rparr>), wallet_of \<lparr>usd = 0, rub = 10, eur = 0\<rparr>) \<and>
   WalletService_Exchange scenario_source no_faults (wallet_of \<lparr>usd = 0, rub = 10, eur = 0\<rparr>)
       1 ''RUB'' ''USD'' 1000
     = (Inr \<lparr>ExchangedAmount = Fin (25 / 2),
             NewBalance = scan_row \<lparr>usd = 25 / 2, rub = - 990, eur = 0\<rparr>,
             Rate = Fin (3602879701896397 / 288230376151711744)\<rparr>,
        wallet_of \<lparr>usd = 25 / 2, rub = - 990, eur = 0\<rparr>) \<and>
   \<not> non_negative \<lparr>usd = 25 / 2, rub = - 990, eur = 0\<rparr>"
  by (simp only: deposit_step exchange_step simp_thms) (simp add: non_negative_def)

section \<open>Identity exchange\<close>





text \<open>
  A positive user id does not make the request succeed either: registration creates no
  wallet row, and without one the debit finds no row to update.
\<close>

lemma exchange_without_wallet_row:
  assumes "0 < userID" and "isValidCurrency c" and "0 < amount"
    and "wallets db userID = None" and "\<not> begin_fails fl"
  shows "WalletService_Exchange src fl db userID c c amount
           = (Inl (ErrExchange (ErrDebit c ErrNoRows)), db)"
  using assms
  by (auto simp: WalletService_Exchange_def ExchangeService_GetRate_def isValidCurrency_def
      walletRepository_Exchange_def updateBalanceTx_def update_returning_def)





section \<open>Round trip of rates\<close>

text \<open>
  Relative errors: of a product, of a rounded approximation, and the magnitude of an
  approximation.
\<close>

lemma relerr_bound: "relerr e x' x \<Longrightarrow> \<bar>x'\<bar> \<le> (1 + e) * \<bar>x\<bar>"
proof -
  assume "relerr e x' x"
  then have "\<bar>x' - x\<bar> \<le> e * \<bar>x\<bar>" by (simp add: relerr_def)
  moreover have "\<bar>x'\<bar> \<le> \<bar>x' - x\<bar> + \<bar>x\<bar>" by simp
  ultimately show ?thesis by (simp add: algebra_simps)
qed

lemma relerr_mult:
  assumes a: "relerr e1 a' a" and b: "relerr e2 b' b" and e1: "0 \<le> e1" and e2: "0 \<le> e2"
  shows "relerr (e1 + e2 + e1 * e2) (a' * b') (a * b)"
proof -
  have split: "a' * b' - a * b = (a' - a) * b' + a * (b' - b)" by (simp add: algebra_simps)
  have da: "\<bar>a' - a\<bar> \<le> e1 * \<bar>a\<bar>" using a by (simp add: relerr_def)
  have db: "\<bar>b' - b\<bar> \<le> e2 * \<bar>b\<bar>" using b by (simp add: relerr_def)
  have nb: "\<bar>b'\<bar> \<le> (1 + e2) * \<bar>b\<bar>" by (rule relerr_bound [OF b])
  have t1: "\<bar>a' - a\<bar> * \<bar>b'\<bar> \<le> (e1 * \<bar>a\<bar>) * ((1 + e2) * \<bar>b\<bar>)"
    by (rule mult_mono [OF da nb]) (use e1 in auto)
  have t2: "\<bar>a\<bar> * \<bar>b' - b\<bar> \<le> \<bar>a\<bar> * (e2 * \<bar>b\<bar>)"
    by (rule mult_left_mono [OF db]) simp
  have "\<bar>a' * b' - a * b\<bar> \<le> \<bar>a' - a\<bar> * \<bar>b'\<bar> + \<bar>a\<bar> * \<bar>b' - b\<bar>"
    unfolding split by (metis abs_mult abs_triangle_ineq)
  also have "\<dots> \<le> (e1 * \<bar>a\<bar>) * ((1 + e2) * \<bar>b\<bar>) + \<bar>a\<bar> * (e2 * \<bar>b\<bar>)"
    using t1 t2 by simp
  also have "\<dots> = (e1 + e2 + e1 * e2) * \<bar>a * b\<bar>"
    by (simp add: abs_mult algebra_simps)
  finally show ?thesis by (simp add: relerr_def)
qed

lemma relerr_trans:
  assumes z: "relerr u z x'" and x: "relerr e x' x" and u: "0 \<le> u"
  shows "relerr (e + u + e * u) z x"
proof -
  have d1: "\<bar>z - x'\<bar> \<le> u * \<bar>x'\<bar>" using z by (simp add: relerr_def)
  have nb: "\<bar>x'\<bar> \<le> (1 + e) * \<bar>x\<bar>" by (rule relerr_bound [OF x])
  have d2: "\<bar>x' - x\<bar> \<le> e * \<bar>x\<bar>" using x by (simp add: relerr_def)
  have "u * \<bar>x'\<bar> \<le> u * ((1 + e) * \<bar>x\<bar>)" by (rule mult_left_mono [OF nb u])
  with d1 have d1': "\<bar>z - x'\<bar> \<le> u * ((1 + e) * \<bar>x\<bar>)" by simp
  have "\<bar>z - x\<bar> \<le> \<bar>z - x'\<bar> + \<bar>x' - x\<bar>" by simp
  also have "\<dots> \<le> u * ((1 + e) * \<bar>x\<bar>) + e * \<bar>x\<bar>" using d1' d2 by simp
  also have "\<dots> = (e + u + e * u) * \<bar>x\<bar>" by (simp add: algebra_simps)
  finally show ?thesis by (simp add: relerr_def)
qed

lemma relerr_magnitude:
  assumes r: "relerr e x' x" and e0: "0 \<le> e" and e1: "e \<le> 1 / 2"
  shows "\<bar>x\<bar> / 2 \<le> \<bar>x'\<bar>" and "\<bar>x'\<bar> \<le> 2 * \<bar>x\<bar>"
proof -
  have "e * \<bar>x\<bar> \<le> 1 / 2 * \<bar>x\<bar>" by (rule mult_right_mono [OF e1]) simp
  with r have d: "\<bar>x' - x\<bar> \<le> \<bar>x\<bar> / 2" by (simp add: relerr_def)
  have "\<bar>x\<bar> \<le> \<bar>x'\<bar> + \<bar>x' - x\<bar>" by simp
  with d show "\<bar>x\<bar> / 2 \<le> \<bar>x'\<bar>" by linarith
  have "\<bar>x'\<bar> \<le> \<bar>x' - x\<bar> + \<bar>x\<bar>" by simp
  with d show "\<bar>x'\<bar> \<le> 2 * \<bar>x\<bar>" by linarith
qed

text \<open>
  The unit roundoff of \<open>float64\<close> is \<open>2^-53\<close>: rounding a number of the normal range is
  exact up to that relative error.
\<close>

lemma unit_roundoff: "(0::rat) \<le> 2 powi (- 53)" "(2::rat) powi (- 53) \<le> 1 / 2"
  by (simp_all add: powi2_split)

lemma round64_normal:
  assumes lo: "2 powi (- 1022) \<le> \<bar>x\<bar>" and hi: "\<bar>x\<bar> \<le> 2 ^ 1023"
  shows "\<exists>y. round64 x = Fin y \<and> relerr (2 powi (- 53)) y x"
proof -
  from round64_finite [OF hi] obtain y where y: "round64 x = Fin y" by blast
  have m: "max \<bar>x\<bar> (2 powi (- 1022)) = \<bar>x\<bar>" using lo by (rule max_absorb1)
  have "\<bar>y - x\<bar> \<le> 2 powi (- 53) * max \<bar>x\<bar> (2 powi (- 1022))" by (rule round64_error [OF y])
  then have "relerr (2 powi (- 53)) y x" unfolding relerr_def m .
  with y show ?thesis by blast
qed

lemma tolerance_covers_one_rounding: "0 \<le> u \<Longrightarrow> u \<le> (1 + u) ^ 4 - (1::rat)"
proof -
  assume u: "0 \<le> u"
  have e: "(1 + u) ^ 4 - 1 = u + (3 * u + 6 * u ^ 2 + 4 * u ^ 3 + u ^ 4)"
    by (simp add: power4_eq_xxxx power3_eq_cube power2_eq_square algebra_simps)
  have "0 \<le> 3 * u + 6 * u ^ 2 + 4 * u ^ 3 + u ^ 4" using u by simp
  with e show ?thesis by simp
qed

text \<open>
  Quotes within the range of \<open>float32\<close> (the type of the gRPC message), from \<open>2^-149\<close> to
  \<open>2^128\<close> in magnitude: the reciprocal of a quote and its product with another quote
  stay in the normal range of \<open>float64\<close>, so every operation of the resolver is exact up
  to the unit roundoff.
\<close>

lemma reciprocal_relerr:
  assumes lo: "2 powi (- 149) \<le> \<bar>q\<bar>" and hi: "\<bar>q\<bar> \<le> 2 ^ 128"
  shows "\<exists>x. fdiv 1 q = Fin x \<and> relerr (2 powi (- 53)) x (1 / q) \<and>
              2 powi (- 129) \<le> \<bar>x\<bar> \<and> \<bar>x\<bar> \<le> 2 ^ 150"
proof -
  have lo': "1 / 2 ^ 149 \<le> \<bar>q\<bar>" using lo by (simp add: powi2_split)
  have pos: "0 < \<bar>q\<bar>" by (rule less_le_trans [OF _ lo']) simp
  then have q0: "q \<noteq> 0" by simp
  have i_hi: "\<bar>1 / q\<bar> \<le> 2 ^ 149"
  proof -
    have "1 / \<bar>q\<bar> \<le> 1 / (1 / 2 ^ 149)" using lo' by (intro divide_left_mono) simp_all
    then show ?thesis by (simp add: abs_divide)
  qed
  have i_lo: "1 / 2 ^ 128 \<le> \<bar>1 / q\<bar>"
  proof -
    have "1 / 2 ^ 128 \<le> 1 / \<bar>q\<bar>" using hi pos by (intro divide_left_mono) simp_all
    then show ?thesis by (simp add: abs_divide)
  qed
  have "(2::rat) powi (- 1022) \<le> 1 / 2 ^ 128" by (simp add: powi2_split)
  from this i_lo have n_lo: "2 powi (- 1022) \<le> \<bar>1 / q\<bar>" by (rule order_trans)
  have "(2::rat) ^ 149 \<le> 2 ^ 1023" by simp
  with i_hi have n_hi: "\<bar>1 / q\<bar> \<le> 2 ^ 1023" by (rule order_trans)
  from round64_normal [OF n_lo n_hi] obtain x
    where x: "round64 (1 / q) = Fin x" and r: "relerr (2 powi (- 53)) x (1 / q)" by blast
  have f: "fdiv 1 q = Fin x" using q0 x by (simp add: fdiv_def)
  note m = relerr_magnitude [OF r unit_roundoff]
  have "1 / 2 ^ 128 / 2 \<le> \<bar>1 / q\<bar> / 2" using i_lo by simp
  from this m(1) have "1 / 2 ^ 128 / 2 \<le> \<bar>x\<bar>" by (rule order_trans)
  then have x_lo: "2 powi (- 129) \<le> \<bar>x\<bar>" by (simp add: powi2_split)
  have "2 * \<bar>1 / q\<bar> \<le> 2 * 2 ^ 149" using i_hi by simp
  from m(2) this have "\<bar>x\<bar> \<le> 2 * 2 ^ 149" by (rule order_trans)
  then have x_hi: "\<bar>x\<bar> \<le> 2 ^ 150" by simp
  from f r x_lo x_hi show ?thesis by blast
qed

lemma cross_relerr:
  assumes p_lo: "2 powi (- 149) \<le> \<bar>p\<bar>" and p_hi: "\<bar>p\<bar> \<le> 2 ^ 128"
    and q_lo: "2 powi (- 149) \<le> \<bar>q\<bar>" and q_hi: "\<bar>q\<bar> \<le> 2 ^ 128"
  shows "\<exists>x z. fdiv 1 p = Fin x \<and> fmul (Fin x) (Fin q) = Fin z \<and>
                relerr (2 * 2 powi (- 53) + (2 powi (- 53)) ^ 2) z (1 / p * q)"
proof -
  define u :: rat where "u = 2 powi (- 53)"
  have u: "0 \<le> u" unfolding u_def by (rule unit_roundoff)
  from reciprocal_relerr [OF p_lo p_hi] obtain x
    where f: "fdiv 1 p = Fin x" and r: "relerr u x (1 / p)"
      and x_lo: "2 powi (- 129) \<le> \<bar>x\<bar>" and x_hi: "\<bar>x\<bar> \<le> 2 ^ 150"
    unfolding u_def by blast
  have "\<bar>x\<bar> * \<bar>q\<bar> \<le> 2 ^ 150 * 2 ^ 128" by (rule mult_mono [OF x_hi q_hi]) simp_all
  also have "\<dots> \<le> (2::rat) ^ 1023" by simp
  finally have n_hi: "\<bar>x * q\<bar> \<le> 2 ^ 1023" by (simp add: abs_mult)
  have "(2::rat) powi (- 1022) \<le> 2 powi (- 129) * 2 powi (- 149)" by (simp add: powi2_split)
  also have "\<dots> \<le> \<bar>x\<bar> * \<bar>q\<bar>" by (rule mult_mono [OF x_lo q_lo]) simp_all
  finally have n_lo: "2 powi (- 1022) \<le> \<bar>x * q\<bar>" by (simp add: abs_mult)
  from round64_normal [OF n_lo n_hi] obtain z
    where z: "round64 (x * q) = Fin z" and rz: "relerr u z (x * q)"
    unfolding u_def by blast
  have m: "fmul (Fin x) (Fin q) = Fin z" using z by (simp add: fmul.simps)
  have "relerr 0 q q" by (simp add: relerr_def)
  with r have "relerr (u + 0 + u * 0) (x * q) (1 / p * q)" using u by (intro relerr_mult) simp_all
  then have "relerr u (x * q) (1 / p * q)" by simp
  from relerr_trans [OF rz this u] have "relerr (u + u + u * u) z (1 / p * q)" .
  moreover have "u + u + u * u = 2 * u + u ^ 2" by (simp add: power2_eq_square)
  ultimately have "relerr (2 * u + u ^ 2) z (1 / p * q)" by simp
  with f m show ?thesis unfolding u_def by blast
qed

lemma reciprocal_round_trip:
  assumes lo: "2 powi (- 149) \<le> \<bar>q\<bar>" and hi: "\<bar>q\<bar> \<le> 2 ^ 128"
  shows "\<exists>x. fdiv 1 q = Fin x \<and> \<bar>x * q - 1\<bar> \<le> (1 + 2 powi (- 53)) ^ 4 - 1"
proof -
  define u :: rat where "u = 2 powi (- 53)"
  have u: "0 \<le> u" unfolding u_def by (rule unit_roundoff)
  from reciprocal_relerr [OF lo hi] obtain x
    where f: "fdiv 1 q = Fin x" and r: "relerr u x (1 / q)" and x_lo: "2 powi (- 129) \<le> \<bar>x\<bar>"
    unfolding u_def by blast
  have "0 < \<bar>q\<bar>" by (rule less_le_trans [OF _ lo]) (simp add: powi2_split)
  then have q0: "q \<noteq> 0" by simp
  have "relerr 0 q q" by (simp add: relerr_def)
  with r have "relerr (u + 0 + u * 0) (x * q) (1 / q * q)" using u by (intro relerr_mult) simp_all
  then have "\<bar>x * q - 1\<bar> \<le> u" using q0 by (simp add: relerr_def)
  with tolerance_covers_one_rounding [OF u] have "\<bar>x * q - 1\<bar> \<le> (1 + u) ^ 4 - 1" by simp
  with f show ?thesis unfolding u_def by blast
qed

lemma cross_round_trip:
  assumes p_lo: "2 powi (- 149) \<le> \<bar>p\<bar>" and p_hi: "\<bar>p\<bar> \<le> 2 ^ 128"
    and q_lo: "2 powi (- 149) \<le> \<bar>q\<bar>" and q_hi: "\<bar>q\<bar> \<le> 2 ^ 128"
  shows "\<exists>x y. fmul (fdiv 1 p) (Fin q) = Fin x \<and> fmul (fdiv 1 q) (Fin p) = Fin y \<and>
               \<bar>x * y - 1\<bar> \<le> (1 + 2 powi (- 53)) ^ 4 - 1"
proof -
  define u :: rat where "u = 2 powi (- 53)"
  have u: "0 \<le> u" unfolding u_def by (rule unit_roundoff)
  let ?e = "2 * u + u ^ 2"
  have e: "0 \<le> ?e" using u by simp
  from cross_relerr [OF p_lo p_hi q_lo q_hi] obtain x
    where x: "fmul (fdiv 1 p) (Fin q) = Fin x" and rx: "relerr ?e x (1 / p * q)"
    unfolding u_def by auto
  from cross_relerr [OF q_lo q_hi p_lo p_hi] obtain y
    where y: "fmul (fdiv 1 q) (Fin p) = Fin y" and ry: "relerr ?e y (1 / q * p)"
    unfolding u_def by auto
  have "0 < \<bar>p\<bar>" by (rule less_le_trans [OF _ p_lo]) (simp add: powi2_split)
  then have p0: "p \<noteq> 0" by simp
  have "0 < \<bar>q\<bar>" by (rule less_le_trans [OF _ q_lo]) (simp add: powi2_split)
  then have q0: "q \<noteq> 0" by simp
  from relerr_mult [OF rx ry e e]
  have "relerr (?e + ?e + ?e * ?e) (x * y) ((1 / p * q) * (1 / q * p))" .
  moreover have "(1 / p * q) * (1 / q * p) = 1" using p0 q0 by simp
  moreover have "?e + ?e + ?e * ?e = (1 + u) ^ 4 - 1"
    by (simp add: power4_eq_xxxx power2_eq_square algebra_simps)
  ultimately have "\<bar>x * y - 1\<bar> \<le> (1 + u) ^ 4 - 1" by (simp add: relerr_def)
  with x y show ?thesis unfolding u_def by blast
qed

lemma scenario_rates:
  "GetRates scenario_source = Inr [''USD'' \<mapsto> 80, ''EUR'' \<mapsto> 90, ''RUB'' \<mapsto> 1]"
  by (simp add: GetRates_def filterRates_def scenario_source_def scenario_quotes_def)

text \<open>
  Outside that range the reciprocal can overflow. The smallest positive \<open>float64\<close>,
  \<open>2^-1074\<close> (the JSON number \<open>5e-324\<close>), is a quote that is not zero.
\<close>

lemma smallest_float64: "round64 (2 powi (- 1074)) = Fin (2 powi (- 1074))"
proof -
  have "ilog 2 ((2::rat) powi (- 1074)) = - 1074"
    by (rule ilog2_unique) (simp_all add: powi2_split)
  moreover have "round_even (1::rat) = 1" using round_even_of_int [of 1] by simp
  ultimately show ?thesis by (simp add: round64_def Let_def powi2_split)
qed

lemma tiny_dollar_rates:
  "GetRates tiny_dollar_source = Inr [''USD'' \<mapsto> 2 powi (- 1074), ''EUR'' \<mapsto> 90, ''RUB'' \<mapsto> 1]"
  by (simp add: GetRates_def filterRates_def tiny_dollar_source_def)

lemma reciprocal_overflow: "fdiv 1 (2 powi (- 1074)) = PInf"
proof -
  have "round64 (2 ^ 1074) = PInf" by (rule round64_overflow) simp
  then show ?thesis by (simp add: fdiv_def powi2_split)
qed

text \<open>
  The claim of C8 as it is written fails: with the cached quotes
  \<open>{RUB: 1, USD: 2^-1074, EUR: 90}\<close>, all present and not zero, the rate of \<open>RUB\<close> to
  \<open>USD\<close> is positive infinity, the rate of \<open>USD\<close> to \<open>RUB\<close> is \<open>2^-1074\<close>, and their
  \<open>float64\<close> product is positive infinity, not a number near 1.
\<close>

theorem round_trip_overflow_counterexample:
  "GetRates tiny_dollar_source
     = Inr [''USD'' \<mapsto> 2 powi (- 1074), ''EUR'' \<mapsto> 90, ''RUB'' \<mapsto> 1] \<and>
   round64 (2 powi (- 1074)) = Fin (2 powi (- 1074)) \<and> (2::rat) powi (- 1074) \<noteq> 0 \<and>
   ExchangeService_GetRate tiny_dollar_source ''RUB'' ''USD'' = Inr PInf \<and>
   ExchangeService_GetRate tiny_dollar_source ''USD'' ''RUB'' = Inr (Fin (2 powi (- 1074))) \<and>
   fmul PInf (Fin (2 powi (- 1074))) = PInf"
proof -
  have n: "(2::rat) powi (- 1074) \<noteq> 0" by (simp add: powi2_split)
  have p: "(0::rat) < 2 powi (- 1074)" by (simp add: powi2_split)
  have a: "ExchangeService_GetRate tiny_dollar_source ''RUB'' ''USD'' = Inr PInf"
    using n reciprocal_overflow
    by (simp add: ExchangeService_GetRate_def tiny_dollar_rates index_def)
  have b: "ExchangeService_GetRate tiny_dollar_source ''USD'' ''RUB'' = Inr (Fin (2 powi (- 1074)))"
    using n by (simp add: ExchangeService_GetRate_def tiny_dollar_rates index_def)
  have c: "fmul PInf (Fin (2 powi (- 1074))) = PInf"
    using n p by (simp only: fmul.simps if_False if_True)
  from tiny_dollar_rates smallest_float64 n a b c show ?thesis by (simp only: simp_thms)
qed

text \<open>
  C8, as the code has it. For every ordered pair of supported currencies, with the \<open>USD\<close>
  and \<open>EUR\<close> quotes present and of a magnitude from \<open>2^-149\<close> to \<open>2^128\<close>, both
  resolutions succeed with finite rates, and the product of the two rates differs from 1
  by at most \<open>(1 + 2^-53)^4 - 1\<close>, a little more than \<open>4 * 2^-53\<close>: at most four roundings
  enter the two rates.
\<close>

theorem round_trip_within_float64_tolerance:
  assumes a: "isValidCurrency a" and b: "isValidCurrency b"
    and rates: "GetRates src = Inr rates"
    and usd: "rates ''USD'' = Some qu" and eur: "rates ''EUR'' = Some qe"
    and usd_lo: "2 powi (- 149) \<le> \<bar>qu\<bar>" and usd_hi: "\<bar>qu\<bar> \<le> 2 ^ 128"
    and eur_lo: "2 powi (- 149) \<le> \<bar>qe\<bar>" and eur_hi: "\<bar>qe\<bar> \<le> 2 ^ 128"
  shows "\<exists>x y. ExchangeService_GetRate src a b = Inr (Fin x) \<and>
               ExchangeService_GetRate src b a = Inr (Fin y) \<and>
               \<bar>x * y - 1\<bar> \<le> (1 + 2 powi (- 53)) ^ 4 - 1"
proof -
  define T :: rat where "T = (1 + 2 powi (- 53)) ^ 4 - 1"
  have iu: "index rates ''USD'' = qu" using usd by (simp add: index_def)
  have ie: "index rates ''EUR'' = qe" using eur by (simp add: index_def)
  have "0 < \<bar>qu\<bar>" by (rule less_le_trans [OF _ usd_lo]) (simp add: powi2_split)
  then have usd0: "qu \<noteq> 0" by simp
  have "0 < \<bar>qe\<bar>" by (rule less_le_trans [OF _ eur_lo]) (simp add: powi2_split)
  then have eur0: "qe \<noteq> 0" by simp
  have "(2::rat) powi (- 53) \<le> T"
    unfolding T_def by (rule tolerance_covers_one_rounding) (rule unit_roundoff)
  with unit_roundoff(1) have t0: "0 \<le> T" by (rule order_trans)
  from reciprocal_round_trip [OF usd_lo usd_hi] obtain xu
    where fu: "fdiv 1 qu = Fin xu" and ru: "\<bar>xu * qu - 1\<bar> \<le> T"
    unfolding T_def by blast
  from reciprocal_round_trip [OF eur_lo eur_hi] obtain xe
    where fe: "fdiv 1 qe = Fin xe" and re: "\<bar>xe * qe - 1\<bar> \<le> T"
    unfolding T_def by blast
  from cross_round_trip [OF eur_lo eur_hi usd_lo usd_hi] obtain zu ze
    where "fmul (fdiv 1 qe) (Fin qu) = Fin zu" and "fmul (fdiv 1 qu) (Fin qe) = Fin ze"
      and ue: "\<bar>zu * ze - 1\<bar> \<le> T"
    unfolding T_def by blast
  then have mu: "fmul (Fin xe) (Fin qu) = Fin zu" and me: "fmul (Fin xu) (Fin qe) = Fin ze"
    by (simp_all add: fu fe)
  have ur: "\<bar>qu * xu - 1\<bar> \<le> T" using ru by (simp add: mult.commute)
  have er: "\<bar>qe * xe - 1\<bar> \<le> T" using re by (simp add: mult.commute)
  have eu: "\<bar>ze * zu - 1\<bar> \<le> T" using ue by (simp add: mult.commute)
  have "\<exists>x y. ExchangeService_GetRate src a b = Inr (Fin x) \<and>
              ExchangeService_GetRate src b a = Inr (Fin y) \<and> \<bar>x * y - 1\<bar> \<le> T"
    using a b unfolding isValidCurrency_def
    by (elim disjE)
      (simp_all add: ExchangeService_GetRate_def rates iu ie usd0 eur0 fu fe mu me t0
        ru re ur er ue eu)
  then show ?thesis unfolding T_def .
qed

theorem round_trip_within_float64_tolerance_witness:
  "isValidCurrency ''USD'' \<and> isValidCurrency ''EUR'' \<and>
   GetRates scenario_source = Inr [''USD'' \<mapsto> 80, ''EUR'' \<mapsto> 90, ''RUB'' \<mapsto> 1] \<and>
   (2::rat) powi (- 149) \<le> \<bar>80\<bar> \<and> \<bar>80::rat\<bar> \<le> 2 ^ 128 \<and>
   (2::rat) powi (- 149) \<le> \<bar>90\<bar> \<and> \<bar>90::rat\<bar> \<le> 2 ^ 128 \<and>
   (\<exists>x y. ExchangeService_GetRate scenario_source ''USD'' ''EUR'' = Inr (Fin x) \<and>
          ExchangeService_GetRate scenario_source ''EUR'' ''USD'' = Inr (Fin y) \<and>
          \<bar>x * y - 1\<bar> \<le> (1 + 2 powi (- 53)) ^ 4 - 1)"
proof -
  have a: "isValidCurrency ''USD''" and b: "isValidCurrency ''EUR''"
    by (simp_all add: isValidCurrency_def)
  have usd: "[''USD'' \<mapsto> 80, ''EUR'' \<mapsto> 90, ''RUB'' \<mapsto> (1::rat)] ''USD'' = Some 80" by simp
  have eur: "[''USD'' \<mapsto> 80, ''EUR'' \<mapsto> 90, ''RUB'' \<mapsto> (1::rat)] ''EUR'' = Some 90" by simp
  have usd_lo: "(2::rat) powi (- 149) \<le> \<bar>80\<bar>" by (simp add: powi2_split)
  have usd_hi: "\<bar>80::rat\<bar> \<le> 2 ^ 128" by simp
  have eur_lo: "(2::rat) powi (- 149) \<le> \<bar>90\<bar>" by (simp add: powi2_split)
  have eur_hi: "\<bar>90::rat\<bar> \<le> 2 ^ 128" by simp
  note round_trip_within_float64_tolerance
    [OF a b scenario_rates usd eur usd_lo usd_hi eur_lo eur_hi]
  with a b scenario_rates usd_lo usd_hi eur_lo eur_hi show ?thesis by (simp only: simp_thms)
qed

end
